theory Spec2Isabelle
  imports Complex_Main "HOL-Library.Word"
begin

unbundle bit_operations_syntax

section \<open>Codes, value types, states, flags and encodings of hojson.h\<close>

text \<open>
  The model follows \<^verbatim>\<open>hojson.h\<close> on a little-endian LP64 host: pointers and
  \<^verbatim>\<open>size_t\<close> are 64 bits wide, \<^verbatim>\<open>long\<close> is 64 bits, \<^verbatim>\<open>int\<close> is 32 bits, and the
  bytes of a \<^verbatim>\<open>uint32_t\<close> are read lowest byte first (the masks of
  \<^verbatim>\<open>hojson_decode_character\<close> rely on that order). Pointers are natural numbers,
  the null pointer is 0. Whether plain \<^verbatim>\<open>char\<close> is signed is left to the platform
  by C; it is a parameter of the model.
\<close>

datatype hojson_code_t =
    HOJSON_ERROR_INVALID_INPUT
  | HOJSON_ERROR_INTERNAL
  | HOJSON_ERROR_INSUFFICIENT_MEMORY
  | HOJSON_ERROR_UNEXPECTED_EOF
  | HOJSON_ERROR_TOKEN_MISMATCH
  | HOJSON_ERROR_SYNTAX
  | HOJSON_NO_OP
  | HOJSON_END_OF_DOCUMENT
  | HOJSON_NAME
  | HOJSON_VALUE
  | HOJSON_OBJECT_BEGIN
  | HOJSON_OBJECT_END
  | HOJSON_ARRAY_BEGIN
  | HOJSON_ARRAY_END

fun code_num :: "hojson_code_t \<Rightarrow> int" where
  "code_num HOJSON_ERROR_INVALID_INPUT = -6"
| "code_num HOJSON_ERROR_INTERNAL = -5"
| "code_num HOJSON_ERROR_INSUFFICIENT_MEMORY = -4"
| "code_num HOJSON_ERROR_UNEXPECTED_EOF = -3"
| "code_num HOJSON_ERROR_TOKEN_MISMATCH = -2"
| "code_num HOJSON_ERROR_SYNTAX = -1"
| "code_num HOJSON_NO_OP = 0"
| "code_num HOJSON_END_OF_DOCUMENT = 1"
| "code_num HOJSON_NAME = 2"
| "code_num HOJSON_VALUE = 3"
| "code_num HOJSON_OBJECT_BEGIN = 4"
| "code_num HOJSON_OBJECT_END = 5"
| "code_num HOJSON_ARRAY_BEGIN = 6"
| "code_num HOJSON_ARRAY_END = 7"

datatype hojson_type_t =
    HOJSON_TYPE_NONE
  | HOJSON_TYPE_INTEGER
  | HOJSON_TYPE_FLOAT
  | HOJSON_TYPE_STRING
  | HOJSON_TYPE_BOOLEAN
  | HOJSON_TYPE_NULL

datatype hojson_state =
    HOJSON_STATE_ERROR_INTERNAL
  | HOJSON_STATE_ERROR_INSUFFICIENT_MEMORY
  | HOJSON_STATE_ERROR_UNEXPECTED_EOF
  | HOJSON_STATE_ERROR_TOKEN_MISMATCH
  | HOJSON_STATE_ERROR_SYNTAX
  | HOJSON_STATE_NONE
  | HOJSON_STATE_UTF8_BOM1
  | HOJSON_STATE_UTF8_BOM2
  | HOJSON_STATE_UTF16BE_BOM
  | HOJSON_STATE_UTF16LE_BOM
  | HOJSON_STATE_NAME_EXPECTED
  | HOJSON_STATE_NAME
  | HOJSON_STATE_POST_NAME
  | HOJSON_STATE_VALUE_EXPECTED
  | HOJSON_STATE_STRING_VALUE
  | HOJSON_STATE_ESCAPE
  | HOJSON_STATE_UNICODE_1
  | HOJSON_STATE_UNICODE_2
  | HOJSON_STATE_UNICODE_3
  | HOJSON_STATE_UNICODE_4
  | HOJSON_STATE_NUMBER_VALUE
  | HOJSON_STATE_TRUE_VALUE_T
  | HOJSON_STATE_TRUE_VALUE_R
  | HOJSON_STATE_TRUE_VALUE_U
  | HOJSON_STATE_FALSE_VALUE_F
  | HOJSON_STATE_FALSE_VALUE_A
  | HOJSON_STATE_FALSE_VALUE_L
  | HOJSON_STATE_FALSE_VALUE_S
  | HOJSON_STATE_NULL_VALUE_N
  | HOJSON_STATE_NULL_VALUE_U
  | HOJSON_STATE_NULL_VALUE_L
  | HOJSON_STATE_POST_VALUE
  | HOJSON_STATE_DONE

text \<open>The numeric value of a state, for the range tests of \<^verbatim>\<open>hojson_parse\<close>.\<close>

fun state_num :: "hojson_state \<Rightarrow> int" where
  "state_num HOJSON_STATE_ERROR_INTERNAL = -5"
| "state_num HOJSON_STATE_ERROR_INSUFFICIENT_MEMORY = -4"
| "state_num HOJSON_STATE_ERROR_UNEXPECTED_EOF = -3"
| "state_num HOJSON_STATE_ERROR_TOKEN_MISMATCH = -2"
| "state_num HOJSON_STATE_ERROR_SYNTAX = -1"
| "state_num HOJSON_STATE_NONE = 0"
| "state_num HOJSON_STATE_UTF8_BOM1 = 1"
| "state_num HOJSON_STATE_UTF8_BOM2 = 2"
| "state_num HOJSON_STATE_UTF16BE_BOM = 3"
| "state_num HOJSON_STATE_UTF16LE_BOM = 4"
| "state_num HOJSON_STATE_NAME_EXPECTED = 5"
| "state_num HOJSON_STATE_NAME = 6"
| "state_num HOJSON_STATE_POST_NAME = 7"
| "state_num HOJSON_STATE_VALUE_EXPECTED = 8"
| "state_num HOJSON_STATE_STRING_VALUE = 9"
| "state_num HOJSON_STATE_ESCAPE = 10"
| "state_num HOJSON_STATE_UNICODE_1 = 11"
| "state_num HOJSON_STATE_UNICODE_2 = 12"
| "state_num HOJSON_STATE_UNICODE_3 = 13"
| "state_num HOJSON_STATE_UNICODE_4 = 14"
| "state_num HOJSON_STATE_NUMBER_VALUE = 15"
| "state_num HOJSON_STATE_TRUE_VALUE_T = 16"
| "state_num HOJSON_STATE_TRUE_VALUE_R = 17"
| "state_num HOJSON_STATE_TRUE_VALUE_U = 18"
| "state_num HOJSON_STATE_FALSE_VALUE_F = 19"
| "state_num HOJSON_STATE_FALSE_VALUE_A = 20"
| "state_num HOJSON_STATE_FALSE_VALUE_L = 21"
| "state_num HOJSON_STATE_FALSE_VALUE_S = 22"
| "state_num HOJSON_STATE_NULL_VALUE_N = 23"
| "state_num HOJSON_STATE_NULL_VALUE_U = 24"
| "state_num HOJSON_STATE_NULL_VALUE_L = 25"
| "state_num HOJSON_STATE_POST_VALUE = 26"
| "state_num HOJSON_STATE_DONE = 27"

type_synonym flags_t = "16 word"

definition HOJSON_FLAG_IS_ARRAY :: flags_t where "HOJSON_FLAG_IS_ARRAY = 1"
definition HOJSON_FLAG_HAS_NAME :: flags_t where "HOJSON_FLAG_HAS_NAME = 2"
definition HOJSON_FLAG_COMMA :: flags_t where "HOJSON_FLAG_COMMA = 4"
definition HOJSON_FLAG_DECIMAL :: flags_t where "HOJSON_FLAG_DECIMAL = 8"
definition HOJSON_FLAG_EXPONENT :: flags_t where "HOJSON_FLAG_EXPONENT = 16"
definition HOJSON_FLAG_PLUS_OR_MINUS :: flags_t where "HOJSON_FLAG_PLUS_OR_MINUS = 32"
definition HOJSON_FLAG_MUST_POP_STACK :: flags_t where "HOJSON_FLAG_MUST_POP_STACK = 64"
definition HOJSON_FLAG_POST_VALUE_CLEAN_UP :: flags_t where "HOJSON_FLAG_POST_VALUE_CLEAN_UP = 128"
definition HOJSON_FLAG_INCREMENT_DEPTH :: flags_t where "HOJSON_FLAG_INCREMENT_DEPTH = 256"
definition HOJSON_FLAG_DECREMENT_DEPTH :: flags_t where "HOJSON_FLAG_DECREMENT_DEPTH = 512"

lemmas flag_defs =
  HOJSON_FLAG_IS_ARRAY_def HOJSON_FLAG_HAS_NAME_def HOJSON_FLAG_COMMA_def
  HOJSON_FLAG_DECIMAL_def HOJSON_FLAG_EXPONENT_def HOJSON_FLAG_PLUS_OR_MINUS_def
  HOJSON_FLAG_MUST_POP_STACK_def HOJSON_FLAG_POST_VALUE_CLEAN_UP_def
  HOJSON_FLAG_INCREMENT_DEPTH_def HOJSON_FLAG_DECREMENT_DEPTH_def

datatype hojson_encoding =
    HOJSON_ENCODING_UNKNOWN
  | HOJSON_ENCODING_UTF_8
  | HOJSON_ENCODING_UTF_16_LE
  | HOJSON_ENCODING_UTF_16_BE

fun encoding_num :: "hojson_encoding \<Rightarrow> nat" where
  "encoding_num HOJSON_ENCODING_UNKNOWN = 0"
| "encoding_num HOJSON_ENCODING_UTF_8 = 1"
| "encoding_num HOJSON_ENCODING_UTF_16_LE = 2"
| "encoding_num HOJSON_ENCODING_UTF_16_BE = 3"

record hojson_character_t =
  raw :: "32 word"
  cvalue :: "32 word"
  bytes :: nat

definition UINT32_MAX :: "32 word" where
  "UINT32_MAX = 0xffffffff"

section \<open>Bytes of a 32-bit register\<close>

text \<open>
  \<^verbatim>\<open>((uint8_t*)&w)[i]\<close> on a little-endian host: byte \<open>i\<close> of the word holds bits
  \<open>8 i\<close> to \<open>8 i + 7\<close>. An index outside the four bytes reads 0 and a store there is
  dropped.
\<close>

definition get_byte :: "32 word \<Rightarrow> nat \<Rightarrow> 8 word" where
  "get_byte w i = ucast (drop_bit (8 * i) w AND 0xFF)"

definition set_byte :: "32 word \<Rightarrow> nat \<Rightarrow> 8 word \<Rightarrow> 32 word" where
  "set_byte w i b = (w AND NOT (push_bit (8 * i) 0xFF)) OR push_bit (8 * i) (ucast b)"

text \<open>
  A plain \<^verbatim>\<open>char\<close> promoted to \<^verbatim>\<open>int\<close>, or converted to \<^verbatim>\<open>uint32_t\<close>: sign-extended
  where \<^verbatim>\<open>char\<close> is signed, zero-extended where it is unsigned. The 32-bit word is the
  two's complement image in both cases.
\<close>

definition char_int :: "bool \<Rightarrow> 8 word \<Rightarrow> 32 word" where
  "char_int sg b = (if sg then scast b else ucast b)"

section \<open>The byte decoder\<close>

text \<open>
  \<^verbatim>\<open>hojson_decode_character(str, str_length, encoding)\<close>. Every caller passes the
  address of a 32-bit register as \<^verbatim>\<open>str\<close>, and the function itself reads
  \<^verbatim>\<open>*(uint32_t* )str\<close>, so \<open>str\<close> is that register. \<^verbatim>\<open>>>\<close> on a promoted
  \<^verbatim>\<open>char\<close> is the arithmetic shift.
\<close>

definition decode_bytes :: "bool \<Rightarrow> 32 word \<Rightarrow> hojson_encoding \<Rightarrow> nat" where
  "decode_bytes sg str encoding =
     (case encoding of
        HOJSON_ENCODING_UNKNOWN \<Rightarrow> 1
      | HOJSON_ENCODING_UTF_8 \<Rightarrow>
          (if signed_drop_bit 7 (char_int sg (get_byte str 0)) AND 0x01 = 0x00 then 1
           else if signed_drop_bit 5 (char_int sg (get_byte str 0)) AND 0x07 = 0x06 then 2
           else if signed_drop_bit 4 (char_int sg (get_byte str 0)) AND 0x0F = 0x0E then 3
           else if signed_drop_bit 3 (char_int sg (get_byte str 0)) AND 0x1F = 0x1E then 4
           else 0)
      | HOJSON_ENCODING_UTF_16_BE \<Rightarrow>
          (if signed_drop_bit 2 (char_int sg (get_byte str 0)) AND 0x3F = 0x36
              \<and> signed_drop_bit 2 (char_int sg (get_byte str 2)) AND 0x3F = 0x37
           then 4 else 2)
      | HOJSON_ENCODING_UTF_16_LE \<Rightarrow>
          (if signed_drop_bit 2 (char_int sg (get_byte str 1)) AND 0x3F = 0x36
              \<and> signed_drop_bit 2 (char_int sg (get_byte str 3)) AND 0x3F = 0x37
           then 4 else 2))"

definition decode_value :: "bool \<Rightarrow> 32 word \<Rightarrow> hojson_encoding \<Rightarrow> nat \<Rightarrow> 32 word" where
  "decode_value sg str encoding n =
     (let s0 = char_int sg (get_byte str 0); s1 = char_int sg (get_byte str 1);
          s2 = char_int sg (get_byte str 2); s3 = char_int sg (get_byte str 3)
      in case encoding of
        HOJSON_ENCODING_UNKNOWN \<Rightarrow> s0 AND 0x000000FF
      | HOJSON_ENCODING_UTF_8 \<Rightarrow>
          (if n = 1 then s0 AND 0x7F
           else if n = 2 then push_bit 6 (s0 AND 0x1F) OR (s1 AND 0x3F)
           else if n = 3 then
             push_bit 12 (s0 AND 0x0F) OR push_bit 6 (s1 AND 0x3F) OR (s2 AND 0x3F)
           else if n = 4 then
             push_bit 18 (s0 AND 0x07) OR push_bit 12 (s1 AND 0x3F)
               OR push_bit 6 (s2 AND 0x3F) OR (s3 AND 0x3F)
           else 0)
      | HOJSON_ENCODING_UTF_16_BE \<Rightarrow>
          (if n = 2 then push_bit 8 s0 OR s1
           else if n = 4 then
             (push_bit 18 (s0 AND 0x03) OR push_bit 16 s1
                OR push_bit 8 (s2 AND 0x03) OR s3) + 0x00010000
           else 0)
      | HOJSON_ENCODING_UTF_16_LE \<Rightarrow>
          (if n = 2 then push_bit 8 s1 OR s0
           else if n = 4 then
             (push_bit 18 (s1 AND 0x03) OR push_bit 16 s0
                OR push_bit 8 (s3 AND 0x03) OR s2) + 0x00010000
           else 0))"

definition decode_raw :: "32 word \<Rightarrow> nat \<Rightarrow> 32 word" where
  "decode_raw str n =
     (if n = 1 then str AND 0x000000FF
      else if n = 2 then str AND 0x0000FFFF
      else if n = 3 then str AND 0x00FFFFFF
      else if n = 4 then str
      else 0)"

definition hojson_decode_character ::
    "bool \<Rightarrow> 32 word \<Rightarrow> nat \<Rightarrow> hojson_encoding \<Rightarrow> hojson_character_t" where
  "hojson_decode_character sg str str_length encoding =
     (let n = decode_bytes sg str encoding
      in if n > str_length then \<lparr>raw = 0, cvalue = UINT32_MAX, bytes = 0\<rparr>
         else \<lparr>raw = decode_raw str n, cvalue = decode_value sg str encoding n, bytes = n\<rparr>)"

section \<open>The byte encoder\<close>

definition encode_utf8 :: "32 word \<Rightarrow> hojson_character_t" where
  "encode_utf8 v =
     (if v \<le> 0x0000007F then \<lparr>raw = v, cvalue = v, bytes = 1\<rparr>
      else if v \<ge> 0x000080 \<and> v \<le> 0x000007FF then
        \<lparr>raw = set_byte (set_byte 0 0 (0xC0 OR ucast (drop_bit 6 (v AND 0x0000007C0))))
                 1 (0x80 OR ucast (v AND 0x0000000FF)),
         cvalue = v, bytes = 2\<rparr>
      else if (v \<ge> 0x00000800 \<and> v \<le> 0x0000D7FF) \<or> (v \<ge> 0x0000E000 \<and> v \<le> 0x0000FFFF) then
        \<lparr>raw = set_byte (set_byte (set_byte 0 0 (0xE0 OR ucast (drop_bit 12 (v AND 0x0000F000))))
                 1 (0x80 OR ucast (drop_bit 6 (v AND 0x00000FC0))))
                 2 (0x80 OR ucast (v AND 0x0000003F)),
         cvalue = v, bytes = 3\<rparr>
      else if v \<ge> 0x00010000 \<and> v \<le> 0x0010FFFF then
        \<lparr>raw = set_byte (set_byte (set_byte (set_byte 0
                 0 (0xF0 OR ucast (drop_bit 18 (v AND 0x001C0000))))
                 1 (0x80 OR ucast (drop_bit 12 (v AND 0x0003F000))))
                 2 (0x80 OR ucast (drop_bit 6 (v AND 0x00000FC0))))
                 3 (0x80 OR ucast (v AND 0x0000003F)),
         cvalue = v, bytes = 4\<rparr>
      else \<lparr>raw = 0, cvalue = v, bytes = 0\<rparr>)"

text \<open>
  The two UTF-16 cases, each with the byte indexes of the source: big-endian stores at
  \<open>[0] [1]\<close> and \<open>[0] [1] [2] [3]\<close>, little-endian at \<open>[1] [0]\<close> and \<open>[3] [2] [1] [0]\<close>.
  In the four-byte branch \<^verbatim>\<open>value -= 0x00010000\<close> comes first; \<^verbatim>\<open>c.value\<close> was assigned
  before it.
\<close>

definition encode_utf16_be :: "32 word \<Rightarrow> hojson_character_t" where
  "encode_utf16_be v =
     (if v \<le> 0x0000D7FF \<or> (v \<ge> 0x0000E000 \<and> v \<le> 0x0000FFFF) then
        \<lparr>raw = set_byte (set_byte 0 0 (ucast (drop_bit 8 (v AND 0x0000FF00))))
                 1 (ucast (v AND 0x000000FF)),
         cvalue = v, bytes = 2\<rparr>
      else if v \<ge> 0x00010000 \<and> v \<le> 0x0010FFFF then
        (let w = v - 0x00010000
         in \<lparr>raw = set_byte (set_byte (set_byte (set_byte 0
                   0 (0xD8 OR ucast (drop_bit 20 (w AND 0x000C0000))))
                   1 (ucast (drop_bit 18 (w AND 0x0003FC00))))
                   2 (0xDC OR ucast (drop_bit 8 (w AND 0x00000300))))
                   3 (ucast (w AND 0x000000FF)),
              cvalue = v, bytes = 4\<rparr>)
      else \<lparr>raw = 0, cvalue = v, bytes = 0\<rparr>)"

definition encode_utf16_le :: "32 word \<Rightarrow> hojson_character_t" where
  "encode_utf16_le v =
     (if v \<le> 0x0000D7FF \<or> (v \<ge> 0x0000E000 \<and> v \<le> 0x0000FFFF) then
        \<lparr>raw = set_byte (set_byte 0 1 (ucast (drop_bit 8 (v AND 0x0000FF00))))
                 0 (ucast (v AND 0x000000FF)),
         cvalue = v, bytes = 2\<rparr>
      else if v \<ge> 0x00010000 \<and> v \<le> 0x0010FFFF then
        (let w = v - 0x00010000
         in \<lparr>raw = set_byte (set_byte (set_byte (set_byte 0
                   3 (0xD8 OR ucast (drop_bit 20 (w AND 0x000C0000))))
                   2 (ucast (drop_bit 18 (w AND 0x0003FC00))))
                   1 (0xDC OR ucast (drop_bit 8 (w AND 0x00000300))))
                   0 (ucast (w AND 0x000000FF)),
              cvalue = v, bytes = 4\<rparr>)
      else \<lparr>raw = 0, cvalue = v, bytes = 0\<rparr>)"

definition hojson_encode_character :: "32 word \<Rightarrow> hojson_encoding \<Rightarrow> hojson_character_t" where
  "hojson_encode_character v encoding =
     (case encoding of
        HOJSON_ENCODING_UNKNOWN \<Rightarrow> encode_utf8 v
      | HOJSON_ENCODING_UTF_8 \<Rightarrow> encode_utf8 v
      | HOJSON_ENCODING_UTF_16_BE \<Rightarrow> encode_utf16_be v
      | HOJSON_ENCODING_UTF_16_LE \<Rightarrow> encode_utf16_le v)"

fun hojson_hex_character_to_decimal :: "32 word \<Rightarrow> 32 word" where
  "hojson_hex_character_to_decimal c =
     (if c = 0x31 then 1 else if c = 0x32 then 2 else if c = 0x33 then 3
      else if c = 0x34 then 4 else if c = 0x35 then 5 else if c = 0x36 then 6
      else if c = 0x37 then 7 else if c = 0x38 then 8 else if c = 0x39 then 9
      else if c = 0x61 \<or> c = 0x41 then 10 else if c = 0x62 \<or> c = 0x42 then 11
      else if c = 0x63 \<or> c = 0x43 then 12 else if c = 0x64 \<or> c = 0x44 then 13
      else if c = 0x65 \<or> c = 0x45 then 14 else if c = 0x66 \<or> c = 0x46 then 15
      else 0)"


section \<open>The parser context and its buffer\<close>

text \<open>
  \<^verbatim>\<open>hojson_context_t\<close>, field by field. \<open>mem\<close> is not a field of the C struct: it holds
  the bytes of the caller's buffer, \<open>mem ! i\<close> being the byte at address \<open>buffer + i\<close>.
  The nodes of the stack live in these bytes, with the layout of \<^verbatim>\<open>hojson_node_t\<close> on
  LP64: \<^verbatim>\<open>parent\<close> at offset 0 (8 bytes), \<^verbatim>\<open>end\<close> at offset 8 (8 bytes), \<^verbatim>\<open>flags\<close> at
  offset 16 (2 bytes), \<^verbatim>\<open>data\<close> at offset 18, \<^verbatim>\<open>sizeof(hojson_node_t)\<close> = 24.
  An access outside the buffer is undefined in C; here it reads 0 and a store is dropped.
\<close>

record hojson_context_t =
  name :: nat
  string_value :: nat
  integer_value :: "64 word"
  float_value :: real
  bool_value :: "8 word"
  value_type :: hojson_type_t
  line :: "32 word"
  column :: "32 word"
  depth :: "32 word"
  is_initialized :: "8 word"
  json :: nat
  json_length :: nat
  encoding :: hojson_encoding
  iterator :: nat
  bytes_iterated :: nat
  buffer :: nat
  buffer_length :: nat
  state :: hojson_state
  escape_return_state :: hojson_state
  error_return_state :: hojson_state
  stack :: nat
  stream :: "32 word"
  stream_length :: nat
  newline_character :: "32 word"
  mem :: "8 word list"

text \<open>
  What the platform and the C library supply: the signedness of plain \<^verbatim>\<open>char\<close>, and
  \<^verbatim>\<open>atoi\<close> and \<^verbatim>\<open>atof\<close>, which read a string from memory (given here as the read
  function of the buffer and the address of the first character).
\<close>

record hojson_env =
  char_signed :: bool
  atoi :: "(nat \<Rightarrow> 8 word) \<Rightarrow> nat \<Rightarrow> 64 word"
  atof :: "(nat \<Rightarrow> 8 word) \<Rightarrow> nat \<Rightarrow> real"

text \<open>Unsigned 64-bit arithmetic (\<^verbatim>\<open>size_t\<close>, pointer differences) wraps around.\<close>

definition wrap64 :: "int \<Rightarrow> nat" where
  "wrap64 i = nat (i mod 2 ^ 64)"

definition sizeof_node :: nat where
  "sizeof_node = 24"

definition in_buffer :: "hojson_context_t \<Rightarrow> nat \<Rightarrow> bool" where
  "in_buffer c a \<longleftrightarrow> buffer c \<le> a \<and> a - buffer c < length (mem c)"

definition peek :: "hojson_context_t \<Rightarrow> nat \<Rightarrow> 8 word" where
  "peek c a = (if in_buffer c a then mem c ! (a - buffer c) else 0)"

definition poke :: "hojson_context_t \<Rightarrow> nat \<Rightarrow> 8 word \<Rightarrow> hojson_context_t" where
  "poke c a v = (if in_buffer c a then c\<lparr>mem := (mem c)[a - buffer c := v]\<rparr> else c)"

fun le_nat :: "8 word list \<Rightarrow> nat" where
  "le_nat [] = 0"
| "le_nat (b # bs) = unat b + 256 * le_nat bs"

definition nat_byte :: "nat \<Rightarrow> nat \<Rightarrow> 8 word" where
  "nat_byte v i = of_nat ((v div 256 ^ i) mod 256)"

definition load64 :: "hojson_context_t \<Rightarrow> nat \<Rightarrow> nat" where
  "load64 c a = le_nat (map (\<lambda>i. peek c (a + i)) [0, 1, 2, 3, 4, 5, 6, 7])"

definition store64 :: "hojson_context_t \<Rightarrow> nat \<Rightarrow> nat \<Rightarrow> hojson_context_t" where
  "store64 c a v = fold (\<lambda>i c'. poke c' (a + i) (nat_byte v i)) [0, 1, 2, 3, 4, 5, 6, 7] c"

definition load16 :: "hojson_context_t \<Rightarrow> nat \<Rightarrow> 16 word" where
  "load16 c a = ucast (peek c a) OR push_bit 8 (ucast (peek c (a + 1)))"

definition store16 :: "hojson_context_t \<Rightarrow> nat \<Rightarrow> 16 word \<Rightarrow> hojson_context_t" where
  "store16 c a v = poke (poke c a (ucast (v AND 0xFF))) (a + 1) (ucast (drop_bit 8 v))"

text \<open>\<^verbatim>\<open>memset(a, v, n)\<close> on the buffer.\<close>

definition memset :: "hojson_context_t \<Rightarrow> nat \<Rightarrow> 8 word \<Rightarrow> nat \<Rightarrow> hojson_context_t" where
  "memset c a v n =
     c\<lparr>mem := map (\<lambda>i. if a \<le> buffer c + i \<and> buffer c + i < a + n then v else mem c ! i)
                [0..<length (mem c)]\<rparr>"

text \<open>
  \<^verbatim>\<open>memcpy(a, &raw, n)\<close>: the first \<open>n\<close> bytes of a character's \<^verbatim>\<open>raw\<close> field. The
  decoder and the encoder return byte counts between 0 and 4.
\<close>

definition write_raw :: "hojson_context_t \<Rightarrow> nat \<Rightarrow> 32 word \<Rightarrow> nat \<Rightarrow> hojson_context_t" where
  "write_raw c a r n =
     (let c1 = (if 0 < n then poke c a (get_byte r 0) else c);
          c2 = (if 1 < n then poke c1 (a + 1) (get_byte r 1) else c1);
          c3 = (if 2 < n then poke c2 (a + 2) (get_byte r 2) else c2)
      in if 3 < n then poke c3 (a + 3) (get_byte r 3) else c3)"

subsection \<open>Fields of a node\<close>

definition node_parent :: "hojson_context_t \<Rightarrow> nat \<Rightarrow> nat" where
  "node_parent c n = load64 c n"

definition node_end :: "hojson_context_t \<Rightarrow> nat \<Rightarrow> nat" where
  "node_end c n = load64 c (n + 8)"

definition node_flags :: "hojson_context_t \<Rightarrow> nat \<Rightarrow> flags_t" where
  "node_flags c n = load16 c (n + 16)"

definition node_data :: "nat \<Rightarrow> nat" where
  "node_data n = n + 18"

definition set_node_parent :: "hojson_context_t \<Rightarrow> nat \<Rightarrow> nat \<Rightarrow> hojson_context_t" where
  "set_node_parent c n p = store64 c n p"

definition set_node_end :: "hojson_context_t \<Rightarrow> nat \<Rightarrow> nat \<Rightarrow> hojson_context_t" where
  "set_node_end c n e = store64 c (n + 8) e"

definition set_node_flags :: "hojson_context_t \<Rightarrow> nat \<Rightarrow> flags_t \<Rightarrow> hojson_context_t" where
  "set_node_flags c n f = store16 c (n + 16) f"

text \<open>The flag tests and updates on \<^verbatim>\<open>HOJSON_STACK\<close>, the node \<open>stack c\<close> points to.\<close>

definition flag_set :: "hojson_context_t \<Rightarrow> flags_t \<Rightarrow> bool" where
  "flag_set c f \<longleftrightarrow> node_flags c (stack c) AND f \<noteq> 0"

definition set_flag :: "hojson_context_t \<Rightarrow> flags_t \<Rightarrow> hojson_context_t" where
  "set_flag c f = set_node_flags c (stack c) (node_flags c (stack c) OR f)"

definition clear_flag :: "hojson_context_t \<Rightarrow> flags_t \<Rightarrow> hojson_context_t" where
  "clear_flag c f = set_node_flags c (stack c) (node_flags c (stack c) AND NOT f)"

section \<open>hojson_init and hojson_realloc\<close>

definition hojson_init ::
    "hojson_context_t option \<Rightarrow> nat \<Rightarrow> nat \<Rightarrow> hojson_context_t option" where
  "hojson_init context buf buf_length =
     (if context = None \<or> buf = 0 \<or> buf_length \<le> 0 then context
      else Some \<lparr>name = 0, string_value = 0, integer_value = 0, float_value = 0,
        bool_value = 0, value_type = HOJSON_TYPE_NONE, line = 1, column = 0, depth = 0,
        is_initialized = 1, json = 0, json_length = 0, encoding = HOJSON_ENCODING_UNKNOWN,
        iterator = 0, bytes_iterated = 0, buffer = buf, buffer_length = buf_length,
        state = HOJSON_STATE_NONE, escape_return_state = HOJSON_STATE_NONE,
        error_return_state = HOJSON_STATE_NONE, stack = 0, stream = 0, stream_length = 0,
        newline_character = 0, mem = replicate buf_length 0\<rparr>)"

text \<open>
  One round of the \<^verbatim>\<open>while (node != NULL)\<close> loop of \<^verbatim>\<open>hojson_realloc\<close>: the node's
  \<^verbatim>\<open>end\<close> and, when not null, its \<^verbatim>\<open>parent\<close> are rewritten in place, in the old buffer.
\<close>

definition realloc_node :: "hojson_context_t \<Rightarrow> nat \<Rightarrow> nat \<Rightarrow> hojson_context_t" where
  "realloc_node c new_buffer node =
     (let c1 = set_node_end c node
                 (wrap64 (int new_buffer + (int (node_end c node) - int (buffer c))))
      in if node_parent c1 node \<noteq> 0
         then set_node_parent c1 node
                (wrap64 (int new_buffer + (int (node_parent c1 node) - int (buffer c1))))
         else c1)"

partial_function (option) realloc_nodes ::
    "hojson_context_t \<Rightarrow> nat \<Rightarrow> nat \<Rightarrow> hojson_context_t option" where
  "realloc_nodes c new_buffer node =
     (if node = 0 then Some c
      else realloc_nodes (realloc_node c new_buffer node) new_buffer (node_parent c node))"

declare realloc_nodes.simps [code]

definition realloc_pointer :: "hojson_context_t \<Rightarrow> nat \<Rightarrow> nat \<Rightarrow> nat" where
  "realloc_pointer c new_buffer p =
     (if p \<noteq> 0 then wrap64 (int new_buffer + (int p - int (buffer c))) else p)"

text \<open>
  The new buffer is a region of its own (the header comment asks for both buffers to be
  allocated at the time of the call): it is zeroed, then receives the \<^verbatim>\<open>buffer_length\<close>
  bytes of the old one.
\<close>

definition realloc_finish :: "hojson_context_t \<Rightarrow> nat \<Rightarrow> nat \<Rightarrow> hojson_context_t" where
  "realloc_finish c new_buffer new_length =
     (let c1 = c\<lparr>name := realloc_pointer c new_buffer (name c),
                 string_value := realloc_pointer c new_buffer (string_value c),
                 stack := realloc_pointer c new_buffer (stack c)\<rparr>;
          c2 = c1\<lparr>mem := map (peek c1) [buffer c1..<buffer c1 + buffer_length c1]
                           @ replicate (new_length - buffer_length c1) 0,
                  buffer := new_buffer, buffer_length := new_length\<rparr>
      in if state c2 = HOJSON_STATE_ERROR_INSUFFICIENT_MEMORY
         then c2\<lparr>state := error_return_state c2, error_return_state := HOJSON_STATE_NONE\<rparr>
         else c2)"

text \<open>The outer \<open>option\<close> is \<open>None\<close> when the walk over the nodes does not end.\<close>

definition hojson_realloc ::
    "hojson_context_t option \<Rightarrow> nat \<Rightarrow> nat \<Rightarrow> hojson_context_t option option" where
  "hojson_realloc context new_buffer new_length =
     (case context of
        None \<Rightarrow> Some None
      | Some c \<Rightarrow>
          if is_initialized c = 0 \<or> new_buffer = 0 \<or> new_length \<le> buffer_length c
          then Some (Some c)
          else (case realloc_nodes c new_buffer (stack c) of
                  None \<Rightarrow> None
                | Some c1 \<Rightarrow> Some (Some (realloc_finish c1 new_buffer new_length))))"

section \<open>The helpers of hojson_parse\<close>

definition HOJSON_IS_NEW_LINE :: "32 word \<Rightarrow> bool" where
  "HOJSON_IS_NEW_LINE c \<longleftrightarrow> c = 0x0A \<or> c = 0x0D"

definition HOJSON_IS_WHITESPACE :: "32 word \<Rightarrow> bool" where
  "HOJSON_IS_WHITESPACE c \<longleftrightarrow> c = 0x20 \<or> c = 0x09 \<or> HOJSON_IS_NEW_LINE c"

definition HOJSON_IS_NUMERIC :: "32 word \<Rightarrow> bool" where
  "HOJSON_IS_NUMERIC c \<longleftrightarrow> c \<ge> 0x30 \<and> c \<le> 0x39"

definition HOJSON_IS_HEX_CHAR :: "32 word \<Rightarrow> bool" where
  "HOJSON_IS_HEX_CHAR c \<longleftrightarrow>
     HOJSON_IS_NUMERIC c \<or> (c \<ge> 0x61 \<and> c \<le> 0x66) \<or> (c \<ge> 0x41 \<and> c \<le> 0x46)"

text \<open>What one round of the parsing loop yields: a return code, or the context to go on with.\<close>

type_synonym step_result = "(hojson_code_t \<times> hojson_context_t) + hojson_context_t"

definition hojson_stay :: "hojson_context_t \<Rightarrow> hojson_context_t" where
  "hojson_stay c =
     c\<lparr>iterator := wrap64 (int (iterator c) - int (bytes_iterated c)),
       column := column c - 1\<rparr>"

definition hojson_push_stack :: "hojson_context_t \<Rightarrow> hojson_context_t" where
  "hojson_push_stack c =
     (if (stack c = 0 \<and> sizeof_node \<ge> buffer_length c)
         \<or> (stack c \<noteq> 0
             \<and> node_end c (stack c) + 1 + sizeof_node \<ge> buffer c + buffer_length c)
      then c\<lparr>error_return_state := state c, state := HOJSON_STATE_ERROR_INSUFFICIENT_MEMORY\<rparr>
      else
        (let node = (if stack c = 0 then buffer c else node_end c (stack c) + 1);
             c1 = (if node \<noteq> 0
                   then set_node_end (set_node_parent c node (stack c)) node (node_data node - 1)
                   else c)
         in c1\<lparr>stack := node\<rparr>))"

definition hojson_pop_stack :: "hojson_context_t \<Rightarrow> hojson_context_t" where
  "hojson_pop_stack c =
     (if stack c = 0 then c
      else
        (let popped_node = stack c;
             used = wrap64 (int (node_end c popped_node) - int popped_node + 1)
         in memset (c\<lparr>stack := node_parent c popped_node\<rparr>) popped_node 0
              (if sizeof_node \<ge> used then sizeof_node else used)))"

definition hojson_append_character ::
    "hojson_context_t \<Rightarrow> hojson_character_t \<Rightarrow> hojson_code_t \<times> hojson_context_t" where
  "hojson_append_character c ch =
     (if node_end c (stack c) + bytes ch \<ge> buffer c + buffer_length c then
        (HOJSON_ERROR_INSUFFICIENT_MEMORY,
         (hojson_stay c)\<lparr>error_return_state := state c,
                          state := HOJSON_STATE_ERROR_INSUFFICIENT_MEMORY\<rparr>)
      else
        (let c1 = write_raw c (node_end c (stack c) + 1) (raw ch) (bytes ch)
         in (HOJSON_NO_OP, set_node_end c1 (stack c1) (node_end c1 (stack c1) + bytes ch))))"

definition hojson_append_terminator ::
    "hojson_context_t \<Rightarrow> hojson_code_t \<times> hojson_context_t" where
  "hojson_append_terminator c =
     (let n = (if encoding_num (encoding c) \<ge> encoding_num HOJSON_ENCODING_UTF_16_BE
               then 2 else 1)
      in if node_end c (stack c) + n \<ge> buffer c + buffer_length c then
           (HOJSON_ERROR_INSUFFICIENT_MEMORY,
            (hojson_stay c)\<lparr>error_return_state := state c,
                             state := HOJSON_STATE_ERROR_INSUFFICIENT_MEMORY\<rparr>)
         else
           (let c1 = memset c (node_end c (stack c) + 1) 0 n
            in (HOJSON_NO_OP, set_node_end c1 (stack c1) (node_end c1 (stack c1) + n))))"

text \<open>\<^verbatim>\<open>token\<close> is a \<^verbatim>\<open>char\<close>: the callers pass \<^verbatim>\<open>c.value\<close>, which is cut to 8 bits.\<close>

definition hojson_begin_token ::
    "hojson_context_t \<Rightarrow> 8 word \<Rightarrow> hojson_code_t \<times> hojson_context_t" where
  "hojson_begin_token c token =
     (let c1 = c\<lparr>name := (if stack c \<noteq> 0 \<and> flag_set c HOJSON_FLAG_HAS_NAME
                           then node_data (stack c) else 0),
                 string_value := 0, integer_value := 0, float_value := 0, bool_value := 0\<rparr>;
          c2 = hojson_push_stack c1
      in if state_num (state c2) \<ge> state_num HOJSON_STATE_NONE then
           (let c3 = set_flag (set_flag c2 HOJSON_FLAG_POST_VALUE_CLEAN_UP)
                       HOJSON_FLAG_INCREMENT_DEPTH
            in if token = 0x7B then
                 (HOJSON_OBJECT_BEGIN, c3\<lparr>state := HOJSON_STATE_NAME_EXPECTED\<rparr>)
               else if token = 0x5B then
                 (HOJSON_ARRAY_BEGIN,
                  (set_flag c3 HOJSON_FLAG_IS_ARRAY)\<lparr>state := HOJSON_STATE_VALUE_EXPECTED\<rparr>)
               else (HOJSON_ERROR_INTERNAL, c3\<lparr>state := HOJSON_STATE_ERROR_INTERNAL\<rparr>))
         else (HOJSON_ERROR_INSUFFICIENT_MEMORY, hojson_stay c2))"

definition hojson_end_token ::
    "hojson_context_t \<Rightarrow> 8 word \<Rightarrow> hojson_code_t \<times> hojson_context_t" where
  "hojson_end_token c token =
     (if (flag_set c HOJSON_FLAG_IS_ARRAY \<and> token \<noteq> 0x5D)
         \<or> (\<not> flag_set c HOJSON_FLAG_IS_ARRAY \<and> token \<noteq> 0x7D) then
        (HOJSON_ERROR_TOKEN_MISMATCH, c\<lparr>state := HOJSON_STATE_ERROR_TOKEN_MISMATCH\<rparr>)
      else if flag_set c HOJSON_FLAG_COMMA then
        (HOJSON_ERROR_SYNTAX, c\<lparr>state := HOJSON_STATE_ERROR_SYNTAX\<rparr>)
      else
        (let c1 = c\<lparr>state := HOJSON_STATE_POST_VALUE, name := 0\<rparr>;
             c2 = set_flag (set_flag c1 HOJSON_FLAG_MUST_POP_STACK) HOJSON_FLAG_DECREMENT_DEPTH;
             parent = node_parent c2 (stack c2);
             c3 = (if parent \<noteq> 0 then
                     (let c2a = (if node_flags c2 parent AND HOJSON_FLAG_HAS_NAME \<noteq> 0
                                 then c2\<lparr>name := node_data parent\<rparr> else c2)
                      in set_node_flags c2a parent
                           (node_flags c2a parent OR HOJSON_FLAG_POST_VALUE_CLEAN_UP))
                   else c2)
         in if flag_set c3 HOJSON_FLAG_IS_ARRAY then (HOJSON_ARRAY_END, c3)
            else (HOJSON_OBJECT_END, c3)))"

section \<open>One character of hojson_parse, state by state\<close>

definition set_state :: "hojson_context_t \<Rightarrow> hojson_state \<Rightarrow> step_result" where
  "set_state c s = Inr (c\<lparr>state := s\<rparr>)"

definition returned :: "hojson_code_t \<times> hojson_context_t \<Rightarrow> step_result" where
  "returned r = Inl r"

text \<open>
  \<^verbatim>\<open>code = hojson_append_...; if (code < HOJSON_NO_OP) return code; else ...\<close>: the second
  argument is what the \<^verbatim>\<open>else\<close> branch does to the context.
\<close>

definition append_then ::
    "hojson_code_t \<times> hojson_context_t \<Rightarrow> (hojson_context_t \<Rightarrow> step_result) \<Rightarrow> step_result" where
  "append_then r f =
     (if code_num (fst r) < code_num HOJSON_NO_OP then Inl r else f (snd r))"

definition state_NONE :: "hojson_context_t \<Rightarrow> hojson_character_t \<Rightarrow> step_result" where
  "state_NONE c ch =
     (if cvalue ch = 0x7B \<or> cvalue ch = 0x5B then
        returned (hojson_begin_token c (ucast (cvalue ch)))
      else if cvalue ch = 0xEF then
        Inr (c\<lparr>state := HOJSON_STATE_UTF8_BOM1, column := column c - 1\<rparr>)
      else if cvalue ch = 0xFE then
        Inr (c\<lparr>state := HOJSON_STATE_UTF16BE_BOM, column := column c - 1\<rparr>)
      else if cvalue ch = 0xFF then
        Inr (c\<lparr>state := HOJSON_STATE_UTF16LE_BOM, column := column c - 1\<rparr>)
      else if \<not> HOJSON_IS_WHITESPACE (cvalue ch) then set_state c HOJSON_STATE_ERROR_SYNTAX
      else Inr c)"

definition state_BOM ::
    "hojson_context_t \<Rightarrow> hojson_character_t \<Rightarrow> 32 word \<Rightarrow> hojson_state
       \<Rightarrow> hojson_encoding option \<Rightarrow> step_result" where
  "state_BOM c ch expected next enc =
     (let c1 = c\<lparr>column := column c - 1\<rparr>
      in if cvalue ch = expected then
           (case enc of
              None \<Rightarrow> Inr (c1\<lparr>state := next\<rparr>)
            | Some e \<Rightarrow> Inr (c1\<lparr>state := next, encoding := e\<rparr>))
         else set_state c1 HOJSON_STATE_ERROR_SYNTAX)"

definition state_NAME_EXPECTED :: "hojson_context_t \<Rightarrow> hojson_character_t \<Rightarrow> step_result" where
  "state_NAME_EXPECTED c ch =
     (if cvalue ch = 0x22 then
        set_state (set_flag c HOJSON_FLAG_HAS_NAME) HOJSON_STATE_NAME
      else if cvalue ch = 0x7D \<or> cvalue ch = 0x5D then
        returned (hojson_end_token c (ucast (cvalue ch)))
      else if \<not> HOJSON_IS_WHITESPACE (cvalue ch) then set_state c HOJSON_STATE_ERROR_SYNTAX
      else Inr c)"

definition state_NAME :: "hojson_context_t \<Rightarrow> hojson_character_t \<Rightarrow> step_result" where
  "state_NAME c ch =
     (if cvalue ch = 0x22 then
        append_then (hojson_append_terminator c)
          (\<lambda>c1. Inl (HOJSON_NAME,
                  c1\<lparr>name := node_data (stack c1), state := HOJSON_STATE_POST_NAME\<rparr>))
      else if cvalue ch = 0x5C then
        Inr (c\<lparr>escape_return_state := state c, state := HOJSON_STATE_ESCAPE\<rparr>)
      else append_then (hojson_append_character c ch) Inr)"

definition state_POST_NAME :: "hojson_context_t \<Rightarrow> hojson_character_t \<Rightarrow> step_result" where
  "state_POST_NAME c ch =
     (if cvalue ch = 0x3A then set_state c HOJSON_STATE_VALUE_EXPECTED
      else if \<not> HOJSON_IS_WHITESPACE (cvalue ch) then set_state c HOJSON_STATE_ERROR_SYNTAX
      else Inr c)"

definition state_VALUE_EXPECTED :: "hojson_context_t \<Rightarrow> hojson_character_t \<Rightarrow> step_result" where
  "state_VALUE_EXPECTED c ch =
     (if cvalue ch = 0x22 then
        Inr (c\<lparr>string_value := node_end c (stack c) + 1, state := HOJSON_STATE_STRING_VALUE\<rparr>)
      else if HOJSON_IS_NUMERIC (cvalue ch) \<or> cvalue ch = 0x2D then
        append_then
          (hojson_append_character (c\<lparr>string_value := node_end c (stack c) + 1\<rparr>) ch)
          (\<lambda>c1. set_state c1 HOJSON_STATE_NUMBER_VALUE)
      else if cvalue ch = 0x74 then set_state c HOJSON_STATE_TRUE_VALUE_T
      else if cvalue ch = 0x66 then set_state c HOJSON_STATE_FALSE_VALUE_F
      else if cvalue ch = 0x6E then set_state c HOJSON_STATE_NULL_VALUE_N
      else if cvalue ch = 0x7B \<or> cvalue ch = 0x5B then
        returned (hojson_begin_token c (ucast (cvalue ch)))
      else if cvalue ch = 0x7D \<or> cvalue ch = 0x5D then
        returned (hojson_end_token c (ucast (cvalue ch)))
      else if \<not> HOJSON_IS_WHITESPACE (cvalue ch) then set_state c HOJSON_STATE_ERROR_SYNTAX
      else Inr c)"

definition state_STRING_VALUE :: "hojson_context_t \<Rightarrow> hojson_character_t \<Rightarrow> step_result" where
  "state_STRING_VALUE c ch =
     (if cvalue ch = 0x22 then
        Inl (HOJSON_VALUE,
             (set_flag (c\<lparr>value_type := HOJSON_TYPE_STRING\<rparr>) HOJSON_FLAG_POST_VALUE_CLEAN_UP)
               \<lparr>state := HOJSON_STATE_POST_VALUE\<rparr>)
      else if cvalue ch = 0x5C then
        Inr (c\<lparr>escape_return_state := state c, state := HOJSON_STATE_ESCAPE\<rparr>)
      else append_then (hojson_append_character c ch) Inr)"

definition escape_character :: "32 word \<Rightarrow> 32 word option" where
  "escape_character v =
     (if v = 0x22 then Some 0x22 else if v = 0x5C then Some 0x5C
      else if v = 0x2F then Some 0x2F else if v = 0x62 then Some 0x08
      else if v = 0x66 then Some 0x0C else if v = 0x6E then Some 0x0A
      else if v = 0x72 then Some 0x0D else if v = 0x74 then Some 0x09
      else None)"

definition state_ESCAPE :: "hojson_context_t \<Rightarrow> hojson_character_t \<Rightarrow> step_result" where
  "state_ESCAPE c ch =
     (case escape_character (cvalue ch) of
        Some characterToAppend \<Rightarrow>
          append_then
            (hojson_append_character c (hojson_encode_character characterToAppend (encoding c)))
            (\<lambda>c1. Inr (c1\<lparr>state := escape_return_state c1,
                           escape_return_state := HOJSON_STATE_NONE\<rparr>))
      | None \<Rightarrow>
          if cvalue ch = 0x75 then set_state c HOJSON_STATE_UNICODE_1
          else set_state c HOJSON_STATE_ERROR_SYNTAX)"

text \<open>
  \<^verbatim>\<open>UNICODE_1\<close> assigns \<^verbatim>\<open>integer_value\<close>, the next two states add to it. The products are
  computed in \<^verbatim>\<open>uint32_t\<close> and converted to \<^verbatim>\<open>long\<close>.
\<close>

definition state_UNICODE ::
    "hojson_context_t \<Rightarrow> hojson_character_t \<Rightarrow> bool \<Rightarrow> 32 word \<Rightarrow> hojson_state
       \<Rightarrow> step_result" where
  "state_UNICODE c ch first weight next =
     (if HOJSON_IS_HEX_CHAR (cvalue ch) then
        Inr (c\<lparr>integer_value :=
                 (if first then 0 else integer_value c)
                   + ucast (hojson_hex_character_to_decimal (cvalue ch) * weight),
               state := next\<rparr>)
      else set_state c HOJSON_STATE_ERROR_SYNTAX)"

definition state_UNICODE_4 :: "hojson_context_t \<Rightarrow> hojson_character_t \<Rightarrow> step_result" where
  "state_UNICODE_4 c ch =
     (if HOJSON_IS_HEX_CHAR (cvalue ch) then
        (let c1 = c\<lparr>integer_value :=
                      integer_value c + ucast (hojson_hex_character_to_decimal (cvalue ch) * 1)\<rparr>
         in append_then
              (hojson_append_character c1
                 (hojson_encode_character (ucast (integer_value c1)) (encoding c1)))
              (\<lambda>c2. Inr (c2\<lparr>integer_value := 0, state := escape_return_state c2,
                             escape_return_state := HOJSON_STATE_NONE\<rparr>)))
      else set_state c HOJSON_STATE_ERROR_SYNTAX)"

text \<open>The branch of \<^verbatim>\<open>NUMBER_VALUE\<close> that ends the number.\<close>

definition number_value_end ::
    "hojson_env \<Rightarrow> hojson_context_t \<Rightarrow> hojson_character_t \<Rightarrow> step_result" where
  "number_value_end env c ch =
     (let c1 = (if flag_set c HOJSON_FLAG_DECIMAL \<or> flag_set c HOJSON_FLAG_EXPONENT then
                  c\<lparr>value_type := HOJSON_TYPE_FLOAT,
                    float_value := (if string_value c \<noteq> 0
                                    then atof env (peek c) (string_value c)
                                    else float_value c)\<rparr>
                else
                  c\<lparr>value_type := HOJSON_TYPE_INTEGER,
                    integer_value := (if string_value c \<noteq> 0
                                      then atoi env (peek c) (string_value c)
                                      else integer_value c)\<rparr>);
          c2 = (set_flag (c1\<lparr>string_value := 0\<rparr>) HOJSON_FLAG_POST_VALUE_CLEAN_UP)
                 \<lparr>state := HOJSON_STATE_POST_VALUE\<rparr>
      in Inl (HOJSON_VALUE,
              if \<not> HOJSON_IS_WHITESPACE (cvalue ch) then hojson_stay c2 else c2))"

definition state_NUMBER_VALUE ::
    "hojson_env \<Rightarrow> hojson_context_t \<Rightarrow> hojson_character_t \<Rightarrow> step_result" where
  "state_NUMBER_VALUE env c ch =
     (if HOJSON_IS_NUMERIC (cvalue ch) then
        append_then (hojson_append_character c ch) Inr
      else if cvalue ch = 0x2E then
        (if flag_set c HOJSON_FLAG_DECIMAL then set_state c HOJSON_STATE_ERROR_SYNTAX
         else append_then (hojson_append_character c ch)
                (\<lambda>c1. Inr (set_flag c1 HOJSON_FLAG_DECIMAL)))
      else if cvalue ch = 0x65 \<or> cvalue ch = 0x45 then
        (if flag_set c HOJSON_FLAG_EXPONENT then set_state c HOJSON_STATE_ERROR_SYNTAX
         else append_then (hojson_append_character c ch)
                (\<lambda>c1. Inr (set_flag c1 HOJSON_FLAG_EXPONENT)))
      else if cvalue ch = 0x2D \<or> cvalue ch = 0x2B then
        (if \<not> flag_set c HOJSON_FLAG_EXPONENT then set_state c HOJSON_STATE_ERROR_SYNTAX
         else if flag_set c HOJSON_FLAG_PLUS_OR_MINUS then set_state c HOJSON_STATE_ERROR_SYNTAX
         else append_then (hojson_append_character c ch)
                (\<lambda>c1. Inr (set_flag c1 HOJSON_FLAG_PLUS_OR_MINUS)))
      else if HOJSON_IS_WHITESPACE (cvalue ch) \<or> cvalue ch = 0x2C \<or> cvalue ch = 0x5D
              \<or> cvalue ch = 0x7D then
        number_value_end env c ch
      else set_state c HOJSON_STATE_ERROR_SYNTAX)"

text \<open>A state of a keyword ladder that expects one letter and moves on.\<close>

definition state_KEYWORD ::
    "hojson_context_t \<Rightarrow> hojson_character_t \<Rightarrow> 32 word \<Rightarrow> hojson_state \<Rightarrow> step_result" where
  "state_KEYWORD c ch expected next =
     (if cvalue ch = expected then set_state c next
      else set_state c HOJSON_STATE_ERROR_SYNTAX)"

text \<open>The last letter of \<^verbatim>\<open>true\<close>, \<^verbatim>\<open>false\<close> and \<^verbatim>\<open>null\<close>.\<close>

definition state_KEYWORD_END ::
    "hojson_context_t \<Rightarrow> hojson_character_t \<Rightarrow> 32 word \<Rightarrow> hojson_type_t
       \<Rightarrow> 8 word option \<Rightarrow> step_result" where
  "state_KEYWORD_END c ch expected ty b =
     (if cvalue ch = expected then
        (let c1 = c\<lparr>value_type := ty\<rparr>;
             c2 = (case b of None \<Rightarrow> c1 | Some v \<Rightarrow> c1\<lparr>bool_value := v\<rparr>)
         in Inl (HOJSON_VALUE,
                 (set_flag c2 HOJSON_FLAG_POST_VALUE_CLEAN_UP)
                   \<lparr>state := HOJSON_STATE_POST_VALUE\<rparr>))
      else set_state c HOJSON_STATE_ERROR_SYNTAX)"

definition state_POST_VALUE :: "hojson_context_t \<Rightarrow> hojson_character_t \<Rightarrow> step_result" where
  "state_POST_VALUE c ch =
     (if cvalue ch = 0x7D \<or> cvalue ch = 0x5D then
        returned (hojson_end_token c (ucast (cvalue ch)))
      else if cvalue ch = 0x2C then
        (if flag_set c HOJSON_FLAG_COMMA then set_state c HOJSON_STATE_ERROR_SYNTAX
         else
           (let c1 = set_flag c HOJSON_FLAG_COMMA
            in if flag_set c1 HOJSON_FLAG_IS_ARRAY
               then set_state c1 HOJSON_STATE_VALUE_EXPECTED
               else set_state c1 HOJSON_STATE_NAME_EXPECTED))
      else if \<not> HOJSON_IS_WHITESPACE (cvalue ch) then set_state c HOJSON_STATE_ERROR_SYNTAX
      else Inr c)"

text \<open>The \<^verbatim>\<open>switch (context->state)\<close> inside the loop. The error states and \<^verbatim>\<open>DONE\<close>
  have no case there.\<close>

definition parse_character ::
    "hojson_env \<Rightarrow> hojson_context_t \<Rightarrow> hojson_character_t \<Rightarrow> step_result" where
  "parse_character env c ch =
     (case state c of
        HOJSON_STATE_NONE \<Rightarrow> state_NONE c ch
      | HOJSON_STATE_UTF8_BOM1 \<Rightarrow> state_BOM c ch 0xBB HOJSON_STATE_UTF8_BOM2 None
      | HOJSON_STATE_UTF8_BOM2 \<Rightarrow>
          state_BOM c ch 0xBF HOJSON_STATE_NONE (Some HOJSON_ENCODING_UTF_8)
      | HOJSON_STATE_UTF16BE_BOM \<Rightarrow>
          state_BOM c ch 0xFF HOJSON_STATE_NONE (Some HOJSON_ENCODING_UTF_16_BE)
      | HOJSON_STATE_UTF16LE_BOM \<Rightarrow>
          state_BOM c ch 0xFE HOJSON_STATE_NONE (Some HOJSON_ENCODING_UTF_16_LE)
      | HOJSON_STATE_NAME_EXPECTED \<Rightarrow> state_NAME_EXPECTED c ch
      | HOJSON_STATE_NAME \<Rightarrow> state_NAME c ch
      | HOJSON_STATE_POST_NAME \<Rightarrow> state_POST_NAME c ch
      | HOJSON_STATE_VALUE_EXPECTED \<Rightarrow> state_VALUE_EXPECTED c ch
      | HOJSON_STATE_STRING_VALUE \<Rightarrow> state_STRING_VALUE c ch
      | HOJSON_STATE_ESCAPE \<Rightarrow> state_ESCAPE c ch
      | HOJSON_STATE_UNICODE_1 \<Rightarrow> state_UNICODE c ch True 4096 HOJSON_STATE_UNICODE_2
      | HOJSON_STATE_UNICODE_2 \<Rightarrow> state_UNICODE c ch False 256 HOJSON_STATE_UNICODE_3
      | HOJSON_STATE_UNICODE_3 \<Rightarrow> state_UNICODE c ch False 16 HOJSON_STATE_UNICODE_4
      | HOJSON_STATE_UNICODE_4 \<Rightarrow> state_UNICODE_4 c ch
      | HOJSON_STATE_NUMBER_VALUE \<Rightarrow> state_NUMBER_VALUE env c ch
      | HOJSON_STATE_TRUE_VALUE_T \<Rightarrow> state_KEYWORD c ch 0x72 HOJSON_STATE_TRUE_VALUE_R
      | HOJSON_STATE_TRUE_VALUE_R \<Rightarrow> state_KEYWORD c ch 0x75 HOJSON_STATE_TRUE_VALUE_U
      | HOJSON_STATE_TRUE_VALUE_U \<Rightarrow>
          state_KEYWORD_END c ch 0x65 HOJSON_TYPE_BOOLEAN (Some 1)
      | HOJSON_STATE_FALSE_VALUE_F \<Rightarrow> state_KEYWORD c ch 0x61 HOJSON_STATE_FALSE_VALUE_A
      | HOJSON_STATE_FALSE_VALUE_A \<Rightarrow> state_KEYWORD c ch 0x6C HOJSON_STATE_FALSE_VALUE_L
      | HOJSON_STATE_FALSE_VALUE_L \<Rightarrow> state_KEYWORD c ch 0x73 HOJSON_STATE_FALSE_VALUE_S
      | HOJSON_STATE_FALSE_VALUE_S \<Rightarrow>
          state_KEYWORD_END c ch 0x65 HOJSON_TYPE_BOOLEAN (Some 0)
      | HOJSON_STATE_NULL_VALUE_N \<Rightarrow> state_KEYWORD c ch 0x75 HOJSON_STATE_NULL_VALUE_U
      | HOJSON_STATE_NULL_VALUE_U \<Rightarrow> state_KEYWORD c ch 0x6C HOJSON_STATE_NULL_VALUE_L
      | HOJSON_STATE_NULL_VALUE_L \<Rightarrow> state_KEYWORD_END c ch 0x6C HOJSON_TYPE_NULL None
      | HOJSON_STATE_POST_VALUE \<Rightarrow> state_POST_VALUE c ch
      | _ \<Rightarrow> Inr c)"

section \<open>hojson_parse\<close>

subsection \<open>The deferred work at the start of a call\<close>

definition apply_depth_flags :: "hojson_context_t \<Rightarrow> hojson_context_t" where
  "apply_depth_flags c =
     (let c1 = (if flag_set c HOJSON_FLAG_INCREMENT_DEPTH
                then clear_flag (c\<lparr>depth := depth c + 1\<rparr>) HOJSON_FLAG_INCREMENT_DEPTH
                else c)
      in if flag_set c1 HOJSON_FLAG_DECREMENT_DEPTH
         then clear_flag (c1\<lparr>depth := depth c1 - 1\<rparr>) HOJSON_FLAG_DECREMENT_DEPTH
         else c1)"

definition post_value_clean_up :: "hojson_context_t \<Rightarrow> hojson_context_t" where
  "post_value_clean_up c =
     (if flag_set c HOJSON_FLAG_POST_VALUE_CLEAN_UP then
        (let s = stack c;
             c1 = (if node_end c s > node_data s
                   then set_node_end
                          (memset c (node_data s) 0 (node_end c s - node_data s + 1))
                          s (node_data s - 1)
                   else c);
             c2 = c1\<lparr>name := 0, value_type := HOJSON_TYPE_NONE, string_value := 0,
                     integer_value := 0, float_value := 0, bool_value := 0\<rparr>
         in clear_flag c2
              (HOJSON_FLAG_HAS_NAME OR HOJSON_FLAG_COMMA OR HOJSON_FLAG_DECIMAL
                 OR HOJSON_FLAG_EXPONENT OR HOJSON_FLAG_PLUS_OR_MINUS
                 OR HOJSON_FLAG_POST_VALUE_CLEAN_UP))
      else c)"

definition parse_deferred :: "hojson_context_t \<Rightarrow> step_result" where
  "parse_deferred c =
     (if stack c \<noteq> 0 then
        (let c1 = apply_depth_flags c
         in if flag_set c1 HOJSON_FLAG_MUST_POP_STACK then
              (let parent = node_parent c1 (stack c1);
                   c2 = hojson_pop_stack c1
               in if parent = 0
                  then Inl (HOJSON_END_OF_DOCUMENT, c2\<lparr>state := HOJSON_STATE_DONE\<rparr>)
                  else Inr (post_value_clean_up c2))
            else Inr (post_value_clean_up c1))
      else Inr c)"

subsection \<open>Filling the stream register from the caller's memory\<close>

text \<open>
  \<open>ram\<close> is the caller's memory at the time of the call, by address; the input slice is
  the \<open>json_length\<close> bytes from \<open>json\<close>. \<^verbatim>\<open>*(uint32_t* )p\<close> reads four bytes whatever the
  length of the slice.
\<close>

definition read32 :: "(nat \<Rightarrow> 8 word) \<Rightarrow> nat \<Rightarrow> 32 word" where
  "read32 ram p =
     set_byte (set_byte (set_byte (set_byte 0 0 (ram p)) 1 (ram (p + 1))) 2 (ram (p + 2)))
       3 (ram (p + 3))"

text \<open>
  \<^verbatim>\<open>memcpy((char* )&stream + off, p, n)\<close>, called with \<open>n < 4\<close>. A byte that falls behind
  the register is dropped (on LP64 the four bytes after \<^verbatim>\<open>stream\<close> are padding).
\<close>

definition copy_to_stream ::
    "32 word \<Rightarrow> nat \<Rightarrow> (nat \<Rightarrow> 8 word) \<Rightarrow> nat \<Rightarrow> nat \<Rightarrow> 32 word" where
  "copy_to_stream w off ram p n =
     (let w1 = (if 0 < n then set_byte w off (ram p) else w);
          w2 = (if 1 < n then set_byte w1 (off + 1) (ram (p + 1)) else w1)
      in if 2 < n then set_byte w2 (off + 2) (ram (p + 2)) else w2)"

definition fill_stream ::
    "32 word \<Rightarrow> nat \<Rightarrow> (nat \<Rightarrow> 8 word) \<Rightarrow> nat \<Rightarrow> nat \<Rightarrow> 32 word" where
  "fill_stream w off ram p bytes_to_copy =
     (if bytes_to_copy < 4 then copy_to_stream w off ram p bytes_to_copy else read32 ram p)"

definition bytes_to_copy_of :: "nat \<Rightarrow> nat \<Rightarrow> nat" where
  "bytes_to_copy_of available stream_len =
     wrap64 (int (if available \<le> 4 then available else 4) - int stream_len)"

subsection \<open>The switch on the error states and the change of the input pointer\<close>

definition parse_resume ::
    "hojson_env \<Rightarrow> hojson_context_t \<Rightarrow> (nat \<Rightarrow> 8 word) \<Rightarrow> nat \<Rightarrow> nat \<Rightarrow> step_result" where
  "parse_resume env c ram js js_length =
     (case state c of
        HOJSON_STATE_ERROR_UNEXPECTED_EOF \<Rightarrow>
          (let s = fill_stream (stream c) (stream_length c) ram js
                     (bytes_to_copy_of js_length (stream_length c));
               ch = hojson_decode_character (char_signed env) s js_length (encoding c)
           in if cvalue ch = 0 \<or> cvalue ch = UINT32_MAX
              then Inl (HOJSON_ERROR_UNEXPECTED_EOF, c)
              else Inr (c\<lparr>state := error_return_state c,
                          error_return_state := HOJSON_STATE_NONE\<rparr>))
      | HOJSON_STATE_DONE \<Rightarrow> Inl (HOJSON_END_OF_DOCUMENT, c)
      | HOJSON_STATE_ERROR_INTERNAL \<Rightarrow> Inl (HOJSON_ERROR_INTERNAL, c)
      | HOJSON_STATE_ERROR_INSUFFICIENT_MEMORY \<Rightarrow> Inl (HOJSON_ERROR_INSUFFICIENT_MEMORY, c)
      | HOJSON_STATE_ERROR_TOKEN_MISMATCH \<Rightarrow> Inl (HOJSON_ERROR_TOKEN_MISMATCH, c)
      | HOJSON_STATE_ERROR_SYNTAX \<Rightarrow> Inl (HOJSON_ERROR_SYNTAX, c)
      | _ \<Rightarrow> Inr c)"

definition parse_repoint :: "hojson_context_t \<Rightarrow> nat \<Rightarrow> nat \<Rightarrow> hojson_context_t" where
  "parse_repoint c js js_length =
     (if json c \<noteq> js then c\<lparr>json := js, json_length := js_length, iterator := js\<rparr> else c)"

subsection \<open>The loop\<close>

definition bytes_remaining_of :: "hojson_context_t \<Rightarrow> nat" where
  "bytes_remaining_of c = wrap64 (int (json_length c) - (int (iterator c) - int (json c)))"

text \<open>The context with the stream register filled, and the character decoded from it.\<close>

definition load_stream :: "hojson_context_t \<Rightarrow> (nat \<Rightarrow> 8 word) \<Rightarrow> hojson_context_t" where
  "load_stream c ram =
     c\<lparr>stream := fill_stream (stream c) (stream_length c) ram (iterator c)
                   (bytes_to_copy_of (bytes_remaining_of c) (stream_length c))\<rparr>"

definition next_character ::
    "hojson_env \<Rightarrow> hojson_context_t \<Rightarrow> (nat \<Rightarrow> 8 word) \<Rightarrow> hojson_character_t" where
  "next_character env c ram =
     hojson_decode_character (char_signed env) (stream (load_stream c ram))
       (bytes_remaining_of c) (encoding c)"

definition unexpected_eof :: "hojson_context_t \<Rightarrow> (nat \<Rightarrow> 8 word) \<Rightarrow> hojson_context_t" where
  "unexpected_eof c ram =
     (load_stream c ram)
       \<lparr>stream_length := bytes_to_copy_of (bytes_remaining_of c) (stream_length c),
        error_return_state := state c,
        state := HOJSON_STATE_ERROR_UNEXPECTED_EOF\<rparr>"

text \<open>Line and column, then the iterator, for a character that was decoded.\<close>

definition advance ::
    "hojson_context_t \<Rightarrow> (nat \<Rightarrow> 8 word) \<Rightarrow> hojson_character_t \<Rightarrow> hojson_context_t" where
  "advance c ram ch =
     (let c1 = load_stream c ram;
          c2 = (if HOJSON_IS_NEW_LINE (cvalue ch) then
                  (let c1a = (if newline_character c1 = 0
                              then c1\<lparr>newline_character := cvalue ch\<rparr> else c1);
                       c1b = (if cvalue ch = newline_character c1a
                              then c1a\<lparr>line := line c1a + 1\<rparr> else c1a)
                   in c1b\<lparr>column := 0\<rparr>)
                else c1\<lparr>column := column c1 + 1\<rparr>);
          n = wrap64 (int (bytes ch) - int (stream_length c2))
      in c2\<lparr>bytes_iterated := n, iterator := wrap64 (int (iterator c2) + int n),
            stream_length := 0\<rparr>)"

definition in_loop_range :: "hojson_state \<Rightarrow> bool" where
  "in_loop_range s \<longleftrightarrow>
     state_num s \<ge> state_num HOJSON_STATE_NONE \<and> state_num s \<le> state_num HOJSON_STATE_DONE"

text \<open>One round of \<^verbatim>\<open>while (state >= NONE && state <= DONE)\<close>, entered with the test true.\<close>

definition parse_iteration ::
    "hojson_env \<Rightarrow> hojson_context_t \<Rightarrow> (nat \<Rightarrow> 8 word) \<Rightarrow> step_result" where
  "parse_iteration env c ram =
     (if state_num (state c) \<ge> state_num HOJSON_STATE_NAME_EXPECTED \<and> stack c = 0 then
        Inl (HOJSON_ERROR_INTERNAL, c\<lparr>state := HOJSON_STATE_ERROR_INTERNAL\<rparr>)
      else
        (let ch = next_character env c ram
         in if cvalue ch = 0 \<or> cvalue ch = UINT32_MAX
            then Inl (HOJSON_ERROR_UNEXPECTED_EOF, unexpected_eof c ram)
            else parse_character env (advance c ram ch) ch))"

text \<open>The loop may not end on every context and memory: \<open>None\<close> is a call that never returns.\<close>

partial_function (option) parse_loop ::
    "hojson_env \<Rightarrow> hojson_context_t \<Rightarrow> (nat \<Rightarrow> 8 word)
       \<Rightarrow> (hojson_code_t \<times> hojson_context_t) option" where
  "parse_loop env c ram =
     (if in_loop_range (state c) then
        (case parse_iteration env c ram of
           Inl r \<Rightarrow> Some r
         | Inr c1 \<Rightarrow> parse_loop env c1 ram)
      else Some (HOJSON_ERROR_SYNTAX, c))"

declare parse_loop.simps [code]

subsection \<open>The function\<close>

definition parse_body ::
    "hojson_env \<Rightarrow> hojson_context_t \<Rightarrow> (nat \<Rightarrow> 8 word) \<Rightarrow> nat \<Rightarrow> nat
       \<Rightarrow> (hojson_code_t \<times> hojson_context_t) option" where
  "parse_body env c ram js js_length =
     (case parse_deferred c of
        Inl r \<Rightarrow> Some r
      | Inr c1 \<Rightarrow>
          (case parse_resume env c1 ram js js_length of
             Inl r \<Rightarrow> Some r
           | Inr c2 \<Rightarrow> parse_loop env (parse_repoint c2 js js_length) ram))"

text \<open>
  \<^verbatim>\<open>hojson_parse(context, json, json_length)\<close>. The context pointer may be null
  (\<open>None\<close>); the result is the code together with the context as the call leaves it.
\<close>

definition hojson_parse ::
    "hojson_env \<Rightarrow> hojson_context_t option \<Rightarrow> (nat \<Rightarrow> 8 word) \<Rightarrow> nat \<Rightarrow> nat
       \<Rightarrow> (hojson_code_t \<times> hojson_context_t option) option" where
  "hojson_parse env context ram js js_length =
     (case context of
        None \<Rightarrow> Some (HOJSON_ERROR_INVALID_INPUT, None)
      | Some c \<Rightarrow>
          if is_initialized c = 0 \<or> js = 0 \<or> js_length \<le> 0
          then Some (HOJSON_ERROR_INVALID_INPUT, Some c)
          else map_option (\<lambda>(code, c'). (code, Some c')) (parse_body env c ram js js_length))"

section \<open>Driving the parser over input slices\<close>

text \<open>
  The caller's memory holding the bytes \<open>xs\<close> from address \<open>p\<close> on; every other byte
  reads 0 (the test program ends each slice with a zero byte).
\<close>

definition bytes_at :: "nat \<Rightarrow> 8 word list \<Rightarrow> nat \<Rightarrow> 8 word" where
  "bytes_at p xs a = (if p \<le> a \<and> a - p < length xs then xs ! (a - p) else 0)"

text \<open>
  What a caller reads after a call: the code, the depth, the value type, the bytes at
  \<^verbatim>\<open>name\<close> and at \<^verbatim>\<open>string_value\<close> up to the first zero byte (\<open>None\<close> for a null
  pointer), and the boolean.
\<close>

fun c_string :: "hojson_context_t \<Rightarrow> nat \<Rightarrow> nat \<Rightarrow> 8 word list" where
  "c_string c p n =
     (if n = 0 \<or> peek c p = 0 then [] else peek c p # c_string c (p + 1) (n - 1))"

definition c_string_at :: "hojson_context_t \<Rightarrow> nat \<Rightarrow> 8 word list option" where
  "c_string_at c p = (if p = 0 then None else Some (c_string c p (length (mem c))))"

record event =
  ev_code :: hojson_code_t
  ev_depth :: "32 word"
  ev_name :: "8 word list option"
  ev_type :: hojson_type_t
  ev_string :: "8 word list option"
  ev_bool :: "8 word"

definition observe :: "hojson_code_t \<Rightarrow> hojson_context_t \<Rightarrow> event" where
  "observe code c =
     \<lparr>ev_code = code, ev_depth = depth c, ev_name = c_string_at c (name c),
      ev_type = value_type c, ev_string = c_string_at c (string_value c),
      ev_bool = bool_value c\<rparr>"

text \<open>
  The loop of the test program: \<^verbatim>\<open>hojson_parse\<close> is called on the current slice until it
  returns \<^verbatim>\<open>UNEXPECTED_EOF\<close>, which moves on to the next slice, or until it returns
  \<^verbatim>\<open>END_OF_DOCUMENT\<close> or another error, which ends the run. Slices are pairs of an address
  and the bytes there. The result lists every code returned, with what the caller reads;
  \<open>fuel\<close> bounds the number of calls.
\<close>

fun drive ::
    "hojson_env \<Rightarrow> nat \<Rightarrow> hojson_context_t \<Rightarrow> (nat \<times> 8 word list) list \<Rightarrow> event list option"
  where
  "drive env fuel c slices =
     (if fuel = 0 then None
      else
        (case slices of
           [] \<Rightarrow> Some []
         | (p, xs) # rest \<Rightarrow>
             (case hojson_parse env (Some c) (bytes_at p xs) p (length xs) of
                Some (code, Some c') \<Rightarrow>
                  (if code = HOJSON_ERROR_UNEXPECTED_EOF then
                     map_option (\<lambda>es. observe code c' # es) (drive env (fuel - 1) c' rest)
                   else if code_num code < code_num HOJSON_NO_OP
                           \<or> code = HOJSON_END_OF_DOCUMENT then
                     Some [observe code c']
                   else map_option (\<lambda>es. observe code c' # es)
                          (drive env (fuel - 1) c' slices))
              | _ \<Rightarrow> None)))"

text \<open>The events of a run that are not error codes.\<close>

definition events :: "event list \<Rightarrow> event list" where
  "events es = filter (\<lambda>e. code_num (ev_code e) \<ge> code_num HOJSON_NO_OP) es"

text \<open>\<open>k\<close> calls on one slice; the code of the last call and the context it leaves.\<close>

fun parse_times ::
    "hojson_env \<Rightarrow> nat \<Rightarrow> hojson_context_t \<Rightarrow> (nat \<Rightarrow> 8 word) \<Rightarrow> nat \<Rightarrow> nat
       \<Rightarrow> (hojson_code_t \<times> hojson_context_t) option" where
  "parse_times env k c ram p n =
     (if k = 0 then Some (HOJSON_NO_OP, c)
      else
        (case hojson_parse env (Some c) ram p n of
           Some (code, Some c') \<Rightarrow>
             if k = 1 then Some (code, c') else parse_times env (k - 1) c' ram p n
         | _ \<Rightarrow> None))"

text \<open>
  The storage of a context before \<^verbatim>\<open>hojson_init\<close>, for the examples: it holds whatever the
  caller has there, here zeroes. \<^verbatim>\<open>hojson_init\<close> overwrites all of it.
\<close>

definition uninitialized_context :: hojson_context_t where
  "uninitialized_context =
     \<lparr>name = 0, string_value = 0, integer_value = 0, float_value = 0, bool_value = 0,
      value_type = HOJSON_TYPE_NONE, line = 0, column = 0, depth = 0, is_initialized = 0,
      json = 0, json_length = 0, encoding = HOJSON_ENCODING_UNKNOWN, iterator = 0,
      bytes_iterated = 0, buffer = 0, buffer_length = 0, state = HOJSON_STATE_NONE,
      escape_return_state = HOJSON_STATE_NONE, error_return_state = HOJSON_STATE_NONE,
      stack = 0, stream = 0, stream_length = 0, newline_character = 0, mem = []\<rparr>"

text \<open>A context initialised over a buffer of \<open>n\<close> bytes at address \<open>b\<close>.\<close>

definition initial_context :: "nat \<Rightarrow> nat \<Rightarrow> hojson_context_t" where
  "initial_context b n = the (hojson_init (Some uninitialized_context) b n)"

text \<open>A platform for the examples: unsigned plain \<^verbatim>\<open>char\<close>, conversions that return 0.\<close>

definition example_env :: hojson_env where
  "example_env = \<lparr>char_signed = False, atoi = (\<lambda>m p. 0), atof = (\<lambda>m p. 0)\<rparr>"

text \<open>
  A string interrupted by a zero byte, with two more bytes in the slice: the context the
  loop holds in the second call, after the quote and the letter.
\<close>

definition nul_example_ram :: "nat \<Rightarrow> 8 word" where
  "nul_example_ram = bytes_at 1000 [0x5B, 0x22, 0x61, 0x00, 0x22, 0x5D]"

definition nul_example :: hojson_context_t where
  "nul_example =
     projr (parse_iteration example_env
       (projr (parse_iteration example_env
          (projr (parse_deferred
             (snd (the (parse_times example_env 1 (initial_context 4096 48)
                nul_example_ram 1000 6)))))
          nul_example_ram))
       nul_example_ram)"


text \<open>
  The number of \<^verbatim>\<open>[1,2]\<close> before its comma: the context the loop holds in the second
  call, after the digit.
\<close>

definition number_example_ram :: "nat \<Rightarrow> 8 word" where
  "number_example_ram = bytes_at 1000 [0x5B, 0x31, 0x2C, 0x32, 0x5D]"

definition number_example :: hojson_context_t where
  "number_example =
     projr (parse_iteration example_env
       (projr (parse_deferred
          (snd (the (parse_times example_env 1 (initial_context 4096 48)
             number_example_ram 1000 5)))))
       number_example_ram)"
section \<open>The stack of nodes in the buffer\<close>

text \<open>
  The nodes \<^verbatim>\<open>hojson_realloc\<close> walks, from \<^verbatim>\<open>context->stack\<close> along the \<^verbatim>\<open>parent\<close>
  pointers to the root, whose parent is null.
\<close>

fun node_chain :: "hojson_context_t \<Rightarrow> nat list \<Rightarrow> nat \<Rightarrow> bool" where
  "node_chain c [] p \<longleftrightarrow> p = 0"
| "node_chain c (n # ns) p \<longleftrightarrow> p = n \<and> n \<noteq> 0 \<and> node_chain c ns (node_parent c n)"

text \<open>
  The \<^verbatim>\<open>parent\<close> and \<^verbatim>\<open>end\<close> fields of every node (16 bytes) and the byte \<^verbatim>\<open>end\<close>
  points to lie in the buffer, and the fields of two nodes do not overlap.
\<close>

definition nodes_in_buffer :: "hojson_context_t \<Rightarrow> nat list \<Rightarrow> bool" where
  "nodes_in_buffer c ns \<longleftrightarrow>
     (\<forall>n \<in> set ns. in_buffer c n \<and> in_buffer c (n + 15) \<and> in_buffer c (node_end c n))"

definition nodes_apart :: "nat list \<Rightarrow> bool" where
  "nodes_apart ns \<longleftrightarrow>
     distinct ns \<and> (\<forall>n \<in> set ns. \<forall>m \<in> set ns. n \<noteq> m \<longrightarrow> n + 16 \<le> m \<or> m + 16 \<le> n)"

text \<open>The address at the same offset in the new buffer; a null pointer stays null.\<close>

definition moved :: "hojson_context_t \<Rightarrow> nat \<Rightarrow> nat \<Rightarrow> nat" where
  "moved c new_buffer p = new_buffer + (p - buffer c)"

definition moved_pointer :: "hojson_context_t \<Rightarrow> nat \<Rightarrow> nat \<Rightarrow> nat" where
  "moved_pointer c new_buffer p = (if p = 0 then 0 else moved c new_buffer p)"


text \<open>
  The context after three calls on \<^verbatim>\<open>[[[\<close> with a buffer of 48 bytes: two nodes, and
  no room for the third.
\<close>

definition realloc_example :: hojson_context_t where
  "realloc_example =
     snd (the (parse_times example_env 3 (initial_context 4096 48)
        (bytes_at 1000 [0x5B, 0x5B, 0x5B]) 1000 3))"



section \<open>Unfolding the model\<close>

lemmas codec_defs =
  hojson_encode_character_def encode_utf8_def encode_utf16_be_def encode_utf16_le_def hojson_decode_character_def
  decode_bytes_def decode_value_def decode_raw_def set_byte_def get_byte_def char_int_def
  UINT32_MAX_def

lemmas memory_defs =
  in_buffer_def peek_def poke_def load64_def store64_def load16_def store16_def memset_def
  write_raw_def nat_byte_def wrap64_def sizeof_node_def
  node_parent_def node_end_def node_flags_def node_data_def
  set_node_parent_def set_node_end_def set_node_flags_def
  flag_set_def set_flag_def clear_flag_def

lemmas character_class_defs =
  HOJSON_IS_NEW_LINE_def HOJSON_IS_WHITESPACE_def HOJSON_IS_NUMERIC_def HOJSON_IS_HEX_CHAR_def

lemmas helper_defs =
  hojson_stay_def hojson_push_stack_def hojson_pop_stack_def hojson_append_character_def
  hojson_append_terminator_def hojson_begin_token_def hojson_end_token_def

lemmas state_defs =
  set_state_def returned_def append_then_def state_NONE_def state_BOM_def
  state_NAME_EXPECTED_def state_NAME_def state_POST_NAME_def state_VALUE_EXPECTED_def
  state_STRING_VALUE_def escape_character_def state_ESCAPE_def state_UNICODE_def
  state_UNICODE_4_def number_value_end_def state_NUMBER_VALUE_def state_KEYWORD_def
  state_KEYWORD_END_def state_POST_VALUE_def parse_character_def

lemmas parse_defs =
  apply_depth_flags_def post_value_clean_up_def parse_deferred_def read32_def
  copy_to_stream_def fill_stream_def bytes_to_copy_of_def parse_resume_def parse_repoint_def
  bytes_remaining_of_def load_stream_def next_character_def unexpected_eof_def advance_def
  in_loop_range_def parse_iteration_def parse_body_def hojson_parse_def

lemmas driver_defs =
  bytes_at_def c_string_at_def observe_def events_def hojson_init_def
  uninitialized_context_def initial_context_def example_env_def
  nul_example_ram_def nul_example_def number_example_ram_def number_example_def

lemma list_update_Cons_numeral:
  "(x # xs)[numeral k := y] = x # xs[pred_numeral k := y]"
  by (simp add: numeral_eq_Suc)

lemma replicate_numeral:
  "replicate (numeral k) x = x # replicate (pred_numeral k) x"
  by (simp add: numeral_eq_Suc)

lemmas model_defs =
  codec_defs memory_defs character_class_defs helper_defs state_defs parse_defs driver_defs
  flag_defs parse_loop.simps Let_def list_update_Cons_numeral replicate_numeral

section \<open>Bit-level facts about the codec\<close>

lemma bit_lt_2p: "(v::'a::len word) < 2 ^ k \<Longrightarrow> bit v n \<Longrightarrow> n < k"
proof -
  assume a: "v < 2 ^ k" and b: "bit v n"
  have "v AND mask k = v" using a by (rule less_mask_eq)
  then have "bit (v AND mask k) n" using b by simp
  then show ?thesis by (simp add: bit_simps)
qed

lemma bit_ge_2p: "(v::'a::len word) < 2 ^ k \<Longrightarrow> k \<le> n \<Longrightarrow> bit v n = False"
  using bit_lt_2p [of v k n] by auto

lemma mask8_numeral: "(0xFF::32 word) = mask 8"
  by (simp add: mask_eq_exp_minus_1)

lemma get_set_byte_same: "i < 4 \<Longrightarrow> get_byte (set_byte w i b) i = b"
  by (rule bit_word_eqI) (auto simp add: get_byte_def set_byte_def bit_simps mask8_numeral)

lemma get_set_byte_other: "i \<noteq> j \<Longrightarrow> get_byte (set_byte w i b) j = get_byte w j"
  by (rule bit_word_eqI)
    (auto simp add: get_byte_def set_byte_def bit_simps mask8_numeral dest: bit_imp_le_length)

lemma get_byte_0: "get_byte 0 i = 0"
  by (simp add: get_byte_def)

lemmas get_set_byte = get_set_byte_same get_set_byte_other get_byte_0

lemma lt32_cases:
  "n < 32 \<Longrightarrow> n \<in> {0::nat,1,2,3,4,5,6,7,8,9,10,11,12,13,14,15,16,17,18,19,20,
     21,22,23,24,25,26,27,28,29,30,31}"
  by simp arith

text \<open>Two 32-bit words are equal when they agree on each of the 32 bit positions.\<close>

lemma word32_eqI:
  assumes "bit x 0 = bit y 0" "bit x 1 = bit y 1" "bit x 2 = bit y 2" "bit x 3 = bit y 3"
    "bit x 4 = bit y 4" "bit x 5 = bit y 5" "bit x 6 = bit y 6" "bit x 7 = bit y 7"
    "bit x 8 = bit y 8" "bit x 9 = bit y 9" "bit x 10 = bit y 10" "bit x 11 = bit y 11"
    "bit x 12 = bit y 12" "bit x 13 = bit y 13" "bit x 14 = bit y 14" "bit x 15 = bit y 15"
    "bit x 16 = bit y 16" "bit x 17 = bit y 17" "bit x 18 = bit y 18" "bit x 19 = bit y 19"
    "bit x 20 = bit y 20" "bit x 21 = bit y 21" "bit x 22 = bit y 22" "bit x 23 = bit y 23"
    "bit x 24 = bit y 24" "bit x 25 = bit y 25" "bit x 26 = bit y 26" "bit x 27 = bit y 27"
    "bit x 28 = bit y 28" "bit x 29 = bit y 29" "bit x 30 = bit y 30" "bit x 31 = bit y 31"
  shows "(x::32 word) = y"
proof (rule bit_word_eqI)
  fix n assume "n < LENGTH(32)"
  then have "n < 32" by simp
  from lt32_cases [OF this] show "bit x n = bit y n"
    using assms by (elim insertE emptyE) simp_all
qed

lemma neq_by_bit: "bit x n \<noteq> bit y n \<Longrightarrow> x \<noteq> y"
  by auto

lemmas bit_conv = bit_simps bit_word_scast_iff bit_word_ucast_iff

subsection \<open>UTF-8: decoding what the encoder produced\<close>

lemma utf8_roundtrip_1:
  assumes "(v::32 word) \<le> 0x7F"
  shows "cvalue (hojson_decode_character sg (raw (encode_utf8 v)) (bytes (encode_utf8 v))
           HOJSON_ENCODING_UTF_8) = v"
proof -
  from assms have "v < 2 ^ 7" by unat_arith
  note b = bit_ge_2p [OF this]
  have l: "signed_drop_bit 7 (char_int sg (get_byte v 0)) AND 0x01 = 0"
    by (cases sg; simp add: char_int_def get_byte_def; rule word32_eqI;
        simp add: bit_conv b)
  have w: "decode_value sg v HOJSON_ENCODING_UTF_8 (Suc 0) = v"
    by (cases sg; simp add: decode_value_def char_int_def get_byte_def; rule word32_eqI;
        simp add: bit_conv b)
  show ?thesis using assms
    by (simp add: encode_utf8_def hojson_decode_character_def decode_bytes_def l w)
qed

lemma utf8_roundtrip_2:
  assumes "(v::32 word) \<ge> 0x80" "v \<le> 0x7FF"
  shows "cvalue (hojson_decode_character sg (raw (encode_utf8 v)) (bytes (encode_utf8 v))
           HOJSON_ENCODING_UTF_8) = v"
proof -
  define b0 :: "8 word" where "b0 = 0xC0 OR ucast (drop_bit 6 (v AND 0x0000007C0))"
  define b1 :: "8 word" where "b1 = 0x80 OR ucast (v AND 0x0000000FF)"
  from assms have "v < 2 ^ 11" by unat_arith
  note b = bit_ge_2p [OF this]
  have n7: "\<not> v \<le> 0x7F" using assms by unat_arith
  have e: "encode_utf8 v = \<lparr>raw = set_byte (set_byte 0 0 b0) 1 b1, cvalue = v, bytes = 2\<rparr>"
    using assms n7 by (simp add: encode_utf8_def b0_def b1_def)
  have "bit (signed_drop_bit 7 (char_int sg b0) AND 0x01) 0 \<noteq> bit (0::32 word) 0"
    by (cases sg) (simp_all add: char_int_def b0_def bit_conv)
  then have l1: "signed_drop_bit 7 (char_int sg b0) AND 0x01 \<noteq> 0" by (rule neq_by_bit)
  have l2: "signed_drop_bit 5 (char_int sg b0) AND 0x07 = 0x06"
    by (cases sg; simp add: char_int_def b0_def; rule word32_eqI; simp add: bit_conv b)
  have w: "decode_value sg (set_byte (set_byte 0 0 b0) (Suc 0) b1) HOJSON_ENCODING_UTF_8 2 = v"
    by (cases sg; simp add: decode_value_def get_set_byte char_int_def b0_def b1_def;
        rule word32_eqI; simp add: bit_conv b)
  show ?thesis
    by (simp add: e hojson_decode_character_def decode_bytes_def get_set_byte l1 l2 w)
qed

lemma utf8_roundtrip_3:
  assumes "(v::32 word) \<ge> 0x800" "v \<le> 0xFFFF"
    and ns: "\<not> (0xD800 \<le> v \<and> v \<le> 0xDFFF)"
  shows "cvalue (hojson_decode_character sg (raw (encode_utf8 v)) (bytes (encode_utf8 v))
           HOJSON_ENCODING_UTF_8) = v"
proof -
  define b0 :: "8 word" where "b0 = 0xE0 OR ucast (drop_bit 12 (v AND 0x0000F000))"
  define b1 :: "8 word" where "b1 = 0x80 OR ucast (drop_bit 6 (v AND 0x00000FC0))"
  define b2 :: "8 word" where "b2 = 0x80 OR ucast (v AND 0x0000003F)"
  from assms have "v < 2 ^ 16" by unat_arith
  note b = bit_ge_2p [OF this]
  have n7: "\<not> v \<le> 0x7F" "\<not> v \<le> 0x7FF" using assms by unat_arith+
  have r: "(0x800 \<le> v \<and> v \<le> 0xD7FF) \<or> (0xE000 \<le> v \<and> v \<le> 0xFFFF)"
    using assms by unat_arith
  have e: "encode_utf8 v =
      \<lparr>raw = set_byte (set_byte (set_byte 0 0 b0) 1 b1) 2 b2, cvalue = v, bytes = 3\<rparr>"
    using r n7 by (simp add: encode_utf8_def b0_def b1_def b2_def)
  have "bit (signed_drop_bit 7 (char_int sg b0) AND 0x01) 0 \<noteq> bit (0::32 word) 0"
    by (cases sg) (simp_all add: char_int_def b0_def bit_conv)
  then have l1: "signed_drop_bit 7 (char_int sg b0) AND 0x01 \<noteq> 0" by (rule neq_by_bit)
  have "bit (signed_drop_bit 5 (char_int sg b0) AND 0x07) 0 \<noteq> bit (0x06::32 word) 0"
    by (cases sg) (simp_all add: char_int_def b0_def bit_conv)
  then have l2: "signed_drop_bit 5 (char_int sg b0) AND 0x07 \<noteq> 0x06" by (rule neq_by_bit)
  have l3: "signed_drop_bit 4 (char_int sg b0) AND 0x0F = 0x0E"
    by (cases sg; simp add: char_int_def b0_def; rule word32_eqI; simp add: bit_conv b)
  have w: "decode_value sg (set_byte (set_byte (set_byte 0 0 b0) (Suc 0) b1) 2 b2)
      HOJSON_ENCODING_UTF_8 3 = v"
    by (cases sg; simp add: decode_value_def get_set_byte char_int_def b0_def b1_def b2_def;
        rule word32_eqI; simp add: bit_conv b)
  show ?thesis
    by (simp add: e hojson_decode_character_def decode_bytes_def get_set_byte l1 l2 l3 w)
qed

lemma utf8_roundtrip_4:
  assumes "(v::32 word) \<ge> 0x10000" "v \<le> 0x10FFFF"
  shows "cvalue (hojson_decode_character sg (raw (encode_utf8 v)) (bytes (encode_utf8 v))
           HOJSON_ENCODING_UTF_8) = v"
proof -
  define b0 :: "8 word" where "b0 = 0xF0 OR ucast (drop_bit 18 (v AND 0x001C0000))"
  define b1 :: "8 word" where "b1 = 0x80 OR ucast (drop_bit 12 (v AND 0x0003F000))"
  define b2 :: "8 word" where "b2 = 0x80 OR ucast (drop_bit 6 (v AND 0x00000FC0))"
  define b3 :: "8 word" where "b3 = 0x80 OR ucast (v AND 0x0000003F)"
  from assms have "v < 2 ^ 21" by unat_arith
  note b = bit_ge_2p [OF this]
  have n7: "\<not> v \<le> 0x7F" "\<not> v \<le> 0x7FF" "\<not> v \<le> 0xD7FF" "\<not> v \<le> 0xFFFF"
    using assms by unat_arith+
  have e: "encode_utf8 v =
      \<lparr>raw = set_byte (set_byte (set_byte (set_byte 0 0 b0) 1 b1) 2 b2) 3 b3,
       cvalue = v, bytes = 4\<rparr>"
    using assms n7 by (simp add: encode_utf8_def b0_def b1_def b2_def b3_def)
  have "bit (signed_drop_bit 7 (char_int sg b0) AND 0x01) 0 \<noteq> bit (0::32 word) 0"
    by (cases sg) (simp_all add: char_int_def b0_def bit_conv)
  then have l1: "signed_drop_bit 7 (char_int sg b0) AND 0x01 \<noteq> 0" by (rule neq_by_bit)
  have "bit (signed_drop_bit 5 (char_int sg b0) AND 0x07) 0 \<noteq> bit (0x06::32 word) 0"
    by (cases sg) (simp_all add: char_int_def b0_def bit_conv)
  then have l2: "signed_drop_bit 5 (char_int sg b0) AND 0x07 \<noteq> 0x06" by (rule neq_by_bit)
  have "bit (signed_drop_bit 4 (char_int sg b0) AND 0x0F) 0 \<noteq> bit (0x0E::32 word) 0"
    by (cases sg) (simp_all add: char_int_def b0_def bit_conv)
  then have l3: "signed_drop_bit 4 (char_int sg b0) AND 0x0F \<noteq> 0x0E" by (rule neq_by_bit)
  have l4: "signed_drop_bit 3 (char_int sg b0) AND 0x1F = 0x1E"
    by (cases sg; simp add: char_int_def b0_def; rule word32_eqI; simp add: bit_conv b)
  have w: "decode_value sg (set_byte (set_byte (set_byte (set_byte 0 0 b0) (Suc 0) b1) 2 b2) 3 b3)
      HOJSON_ENCODING_UTF_8 4 = v"
    by (cases sg;
        simp add: decode_value_def get_set_byte char_int_def b0_def b1_def b2_def b3_def;
        rule word32_eqI; simp add: bit_conv b)
  show ?thesis
    by (simp add: e hojson_decode_character_def decode_bytes_def get_set_byte l1 l2 l3 l4 w)
qed

lemma utf8_roundtrip:
  assumes "(v::32 word) \<le> 0x10FFFF" "\<not> (0xD800 \<le> v \<and> v \<le> 0xDFFF)"
  shows "cvalue (hojson_decode_character sg (raw (encode_utf8 v)) (bytes (encode_utf8 v))
           HOJSON_ENCODING_UTF_8) = v"
proof -
  consider "v \<le> 0x7F" | "0x80 \<le> v \<and> v \<le> 0x7FF" | "0x800 \<le> v \<and> v \<le> 0xFFFF"
    | "0x10000 \<le> v \<and> v \<le> 0x10FFFF"
    using assms(1) by unat_arith
  then show ?thesis
    using assms(2) utf8_roundtrip_1 utf8_roundtrip_2 utf8_roundtrip_3 utf8_roundtrip_4
    by cases blast+
qed

subsection \<open>UTF-16: decoding a two-byte code unit the encoder produced\<close>

lemma utf16_high_bits:
  assumes "(v::32 word) AND 0x8080 = 0"
  shows "\<not> bit v 7" "\<not> bit v 15"
proof -
  have "bit (v AND 0x8080) 7 = bit (0::32 word) 7" "bit (v AND 0x8080) 15 = bit (0::32 word) 15"
    using assms by simp_all
  then show "\<not> bit v 7" "\<not> bit v 15" by (simp_all add: bit_conv)
qed

lemma utf16be_two_bytes:
  assumes "(v::32 word) \<le> 0xFFFF" "\<not> (0xD800 \<le> v \<and> v \<le> 0xDFFF)"
  shows "encode_utf16_be v =
    \<lparr>raw = set_byte (set_byte 0 0 (ucast (drop_bit 8 (v AND 0x0000FF00))))
             1 (ucast (v AND 0x000000FF)), cvalue = v, bytes = 2\<rparr>"
proof -
  have "v \<le> 0xD7FF \<or> (0xE000 \<le> v \<and> v \<le> 0xFFFF)" using assms by unat_arith
  then show ?thesis by (simp add: encode_utf16_be_def)
qed

lemma utf16le_two_bytes:
  assumes "(v::32 word) \<le> 0xFFFF" "\<not> (0xD800 \<le> v \<and> v \<le> 0xDFFF)"
  shows "encode_utf16_le v =
    \<lparr>raw = set_byte (set_byte 0 1 (ucast (drop_bit 8 (v AND 0x0000FF00))))
             0 (ucast (v AND 0x000000FF)), cvalue = v, bytes = 2\<rparr>"
proof -
  have "v \<le> 0xD7FF \<or> (0xE000 \<le> v \<and> v \<le> 0xFFFF)" using assms by unat_arith
  then show ?thesis by (simp add: encode_utf16_le_def)
qed

lemma utf16be_roundtrip:
  assumes "(v::32 word) \<le> 0xFFFF" "\<not> (0xD800 \<le> v \<and> v \<le> 0xDFFF)"
    and sg: "sg \<longrightarrow> v AND 0x8080 = 0"
  shows "cvalue (hojson_decode_character sg (raw (encode_utf16_be v))
           (bytes (encode_utf16_be v)) HOJSON_ENCODING_UTF_16_BE) = v"
proof -
  define hi :: "8 word" where "hi = ucast (drop_bit 8 (v AND 0x0000FF00))"
  define lo :: "8 word" where "lo = ucast (v AND 0x000000FF)"
  from assms have "v < 2 ^ 16" by unat_arith
  note b = bit_ge_2p [OF this]
  have e: "encode_utf16_be v = \<lparr>raw = set_byte (set_byte 0 0 hi) (Suc 0) lo, cvalue = v, bytes = 2\<rparr>"
    by (simp add: utf16be_two_bytes [OF assms(1,2)] hi_def lo_def)
  have l: "decode_bytes sg (set_byte (set_byte 0 0 hi) (Suc 0) lo) HOJSON_ENCODING_UTF_16_BE = 2"
    by (simp add: decode_bytes_def get_set_byte char_int_def)
  have w: "decode_value sg (set_byte (set_byte 0 0 hi) (Suc 0) lo) HOJSON_ENCODING_UTF_16_BE 2 = v"
  proof (cases sg)
    case True
    with sg have h: "\<not> bit v 7" "\<not> bit v 15" by (simp_all add: utf16_high_bits)
    show ?thesis
      by (simp add: True decode_value_def get_set_byte char_int_def hi_def lo_def;
          rule word32_eqI; simp add: bit_conv b h)
  next
    case False
    show ?thesis
      by (simp add: False decode_value_def get_set_byte char_int_def hi_def lo_def;
          rule word32_eqI; simp add: bit_conv b)
  qed
  show ?thesis
    unfolding e by (simp add: hojson_decode_character_def l w)
qed

lemma utf16le_roundtrip:
  assumes "(v::32 word) \<le> 0xFFFF" "\<not> (0xD800 \<le> v \<and> v \<le> 0xDFFF)"
    and sg: "sg \<longrightarrow> v AND 0x8080 = 0"
  shows "cvalue (hojson_decode_character sg (raw (encode_utf16_le v))
           (bytes (encode_utf16_le v)) HOJSON_ENCODING_UTF_16_LE) = v"
proof -
  define hi :: "8 word" where "hi = ucast (drop_bit 8 (v AND 0x0000FF00))"
  define lo :: "8 word" where "lo = ucast (v AND 0x000000FF)"
  from assms have "v < 2 ^ 16" by unat_arith
  note b = bit_ge_2p [OF this]
  have e: "encode_utf16_le v = \<lparr>raw = set_byte (set_byte 0 (Suc 0) hi) 0 lo, cvalue = v, bytes = 2\<rparr>"
    by (simp add: utf16le_two_bytes [OF assms(1,2)] hi_def lo_def)
  have l: "decode_bytes sg (set_byte (set_byte 0 (Suc 0) hi) 0 lo) HOJSON_ENCODING_UTF_16_LE = 2"
    by (simp add: decode_bytes_def get_set_byte char_int_def)
  have w: "decode_value sg (set_byte (set_byte 0 (Suc 0) hi) 0 lo) HOJSON_ENCODING_UTF_16_LE 2 = v"
  proof (cases sg)
    case True
    with sg have h: "\<not> bit v 7" "\<not> bit v 15" by (simp_all add: utf16_high_bits)
    show ?thesis
      by (simp add: True decode_value_def get_set_byte char_int_def hi_def lo_def;
          rule word32_eqI; simp add: bit_conv b h)
  next
    case False
    show ?thesis
      by (simp add: False decode_value_def get_set_byte char_int_def hi_def lo_def;
          rule word32_eqI; simp add: bit_conv b)
  qed
  show ?thesis
    unfolding e by (simp add: hojson_decode_character_def l w)
qed

subsection \<open>The unknown encoding: one byte per character\<close>

lemma unknown_roundtrip:
  assumes "(v::32 word) \<le> 0x7F"
  shows "cvalue (hojson_decode_character sg (raw (encode_utf8 v)) (bytes (encode_utf8 v))
           HOJSON_ENCODING_UNKNOWN) = v"
proof -
  from assms have "v < 2 ^ 7" by unat_arith
  note b = bit_ge_2p [OF this]
  have w: "decode_value sg v HOJSON_ENCODING_UNKNOWN (Suc 0) = v"
    by (cases sg; simp add: decode_value_def char_int_def get_byte_def; rule word32_eqI;
        simp add: bit_conv b)
  show ?thesis using assms
    by (simp add: encode_utf8_def hojson_decode_character_def decode_bytes_def w)
qed

subsection \<open>Byte counts of the encoder\<close>

lemma encode_utf8_bytes_if:
  "bytes (encode_utf8 v) =
     (if v \<le> 0x7F then 1 else if 0x80 \<le> v \<and> v \<le> 0x7FF then 2
      else if (0x800 \<le> v \<and> v \<le> 0xD7FF) \<or> (0xE000 \<le> v \<and> v \<le> 0xFFFF) then 3
      else if 0x10000 \<le> v \<and> v \<le> 0x10FFFF then 4 else 0)"
  by (simp add: encode_utf8_def)

lemma encode_utf16_be_bytes_if:
  "bytes (encode_utf16_be v) =
     (if v \<le> 0xD7FF \<or> (0xE000 \<le> v \<and> v \<le> 0xFFFF) then 2
      else if 0x10000 \<le> v \<and> v \<le> 0x10FFFF then 4 else 0)"
  by (simp add: encode_utf16_be_def Let_def)

lemma encode_utf16_le_bytes_if:
  "bytes (encode_utf16_le v) =
     (if v \<le> 0xD7FF \<or> (0xE000 \<le> v \<and> v \<le> 0xFFFF) then 2
      else if 0x10000 \<le> v \<and> v \<le> 0x10FFFF then 4 else 0)"
  by (simp add: encode_utf16_le_def Let_def)

lemma encode_utf8_bytes:
  "bytes (encode_utf8 v) = 0 \<longleftrightarrow> \<not> (v \<le> 0x10FFFF \<and> \<not> (0xD800 \<le> v \<and> v \<le> 0xDFFF))"
  unfolding encode_utf8_bytes_if
  by (simp add: word_le_nat_alt) arith

lemma encode_utf16_be_bytes:
  "bytes (encode_utf16_be v) = 0
     \<longleftrightarrow> \<not> (v \<le> 0x10FFFF \<and> \<not> (0xD800 \<le> v \<and> v \<le> 0xDFFF))"
  unfolding encode_utf16_be_bytes_if
  by (simp add: word_le_nat_alt) arith

lemma encode_utf16_le_bytes:
  "bytes (encode_utf16_le v) = 0
     \<longleftrightarrow> \<not> (v \<le> 0x10FFFF \<and> \<not> (0xD800 \<le> v \<and> v \<le> 0xDFFF))"
  unfolding encode_utf16_le_bytes_if
  by (simp add: word_le_nat_alt) arith

lemma hojson_encode_character_bytes:
  "bytes (hojson_encode_character v e) = 0
     \<longleftrightarrow> \<not> (v \<le> 0x10FFFF \<and> \<not> (0xD800 \<le> v \<and> v \<le> 0xDFFF))"
  by (cases e) (simp_all add: hojson_encode_character_def encode_utf8_bytes encode_utf16_be_bytes
      encode_utf16_le_bytes)

subsection \<open>Claim C2\<close>

text \<open>
  C2, as the spec states it, says that for every Unicode scalar value the decoder inverts the
  encoder in each of the encodings UTF-8/unknown, UTF-16BE and UTF-16LE. In the unknown
  encoding the decoder reads one byte per character by design, while the encoder writes
  UTF-8: U+00E9 is encoded as two bytes and decoded as the value of the first byte.
\<close>

theorem encode_decode_unknown_counterexample:
  "cvalue (hojson_decode_character True
      (raw (hojson_encode_character 0xE9 HOJSON_ENCODING_UNKNOWN))
      (bytes (hojson_encode_character 0xE9 HOJSON_ENCODING_UNKNOWN))
      HOJSON_ENCODING_UNKNOWN) \<noteq> 0xE9
   \<and> cvalue (hojson_decode_character False
      (raw (hojson_encode_character 0xE9 HOJSON_ENCODING_UNKNOWN))
      (bytes (hojson_encode_character 0xE9 HOJSON_ENCODING_UNKNOWN))
      HOJSON_ENCODING_UNKNOWN) \<noteq> 0xE9"
  by (simp add: codec_defs)

text \<open>
  The four-byte branch of the UTF-16 encoder shifts the two high fields out of the byte
  (\<^verbatim>\<open>>> 20\<close> and \<^verbatim>\<open>>> 18\<close> under the masks \<^verbatim>\<open>0x000C0000\<close> and \<^verbatim>\<open>0x0003FC00\<close>), so a
  supplementary code point loses bits 10 to 19: U+1F600 comes back as U+10200.
\<close>

lemma encode_utf16_supplementary_example:
  "raw (hojson_encode_character 0x1F600 HOJSON_ENCODING_UTF_16_BE) = 0x00DE00D8
   \<and> cvalue (hojson_decode_character sg
        (raw (hojson_encode_character 0x1F600 HOJSON_ENCODING_UTF_16_BE))
        (bytes (hojson_encode_character 0x1F600 HOJSON_ENCODING_UTF_16_BE))
        HOJSON_ENCODING_UTF_16_BE) = 0x10200"
  by (simp add: codec_defs)

text \<open>
  In UTF-16LE the four-byte branch stores the same bytes at the indexes \<open>[3] [2] [1] [0]\<close>,
  which puts the \<open>0xDC\<close> unit first; the decoder, which looks for \<open>0xD8\<close> in byte 1 and
  \<open>0xDC\<close> in byte 3, reads the first two bytes as one code unit.
\<close>

lemma encode_utf16le_supplementary_example:
  "raw (hojson_encode_character 0x1F600 HOJSON_ENCODING_UTF_16_LE) = 0xD800DE00
   \<and> cvalue (hojson_decode_character False
        (raw (hojson_encode_character 0x1F600 HOJSON_ENCODING_UTF_16_LE))
        (bytes (hojson_encode_character 0x1F600 HOJSON_ENCODING_UTF_16_LE))
        HOJSON_ENCODING_UTF_16_LE) = 0xDE00"
  by (simp add: codec_defs)

text \<open>
  C2 (amended): for every scalar value \<open>v \<le> 0x10FFFF\<close> outside \<open>0xD800..0xDFFF\<close> the
  encoder produces a non-zero byte count in every encoding, and decoding exactly those
  bytes in the same encoding returns \<open>v\<close>
  \<^item> in UTF-8, for every such \<open>v\<close>;
  \<^item> in the unknown encoding, for \<open>v \<le> 0x7F\<close>;
  \<^item> in UTF-16BE and UTF-16LE, for \<open>v \<le> 0xFFFF\<close>, where plain \<^verbatim>\<open>char\<close> is unsigned or
    both bytes of the code unit are below \<open>0x80\<close>.
  For \<open>v\<close> in the surrogate range or above \<open>0x10FFFF\<close> the encoder returns a zero-byte
  result in every encoding.
\<close>

theorem encode_decode_roundtrip:
  "(v \<le> 0x10FFFF \<and> \<not> (0xD800 \<le> v \<and> v \<le> 0xDFFF) \<longrightarrow>
      bytes (hojson_encode_character v e) \<noteq> 0
      \<and> (e = HOJSON_ENCODING_UTF_8
           \<or> (e = HOJSON_ENCODING_UNKNOWN \<and> v \<le> 0x7F)
           \<or> ((e = HOJSON_ENCODING_UTF_16_BE \<or> e = HOJSON_ENCODING_UTF_16_LE)
               \<and> v \<le> 0xFFFF \<and> (sg \<longrightarrow> v AND 0x8080 = 0))
         \<longrightarrow> cvalue (hojson_decode_character sg (raw (hojson_encode_character v e))
                (bytes (hojson_encode_character v e)) e) = v))
   \<and> ((0xD800 \<le> v \<and> v \<le> 0xDFFF) \<or> 0x10FFFF < v \<longrightarrow>
        bytes (hojson_encode_character v e) = 0)"
proof (intro conjI impI)
  assume "v \<le> 0x10FFFF \<and> \<not> (0xD800 \<le> v \<and> v \<le> 0xDFFF)"
  then show "bytes (hojson_encode_character v e) \<noteq> 0"
    by (simp add: hojson_encode_character_bytes)
next
  assume "(0xD800 \<le> v \<and> v \<le> 0xDFFF) \<or> 0x10FFFF < v"
  then have "\<not> (v \<le> 0x10FFFF \<and> \<not> (0xD800 \<le> v \<and> v \<le> 0xDFFF))"
    by (auto simp add: word_le_nat_alt word_less_nat_alt)
  then show "bytes (hojson_encode_character v e) = 0"
    using hojson_encode_character_bytes [of v e] by blast
next
  assume v: "v \<le> 0x10FFFF \<and> \<not> (0xD800 \<le> v \<and> v \<le> 0xDFFF)"
    and d: "e = HOJSON_ENCODING_UTF_8
           \<or> (e = HOJSON_ENCODING_UNKNOWN \<and> v \<le> 0x7F)
           \<or> ((e = HOJSON_ENCODING_UTF_16_BE \<or> e = HOJSON_ENCODING_UTF_16_LE)
               \<and> v \<le> 0xFFFF \<and> (sg \<longrightarrow> v AND 0x8080 = 0))"
  from v have v1: "v \<le> 0x10FFFF" and v2: "\<not> (0xD800 \<le> v \<and> v \<le> 0xDFFF)" by simp_all
  show "cvalue (hojson_decode_character sg (raw (hojson_encode_character v e))
          (bytes (hojson_encode_character v e)) e) = v"
  proof (cases e)
    case HOJSON_ENCODING_UNKNOWN
    with d have "v \<le> 0x7F" by simp
    then show ?thesis
      by (simp add: HOJSON_ENCODING_UNKNOWN hojson_encode_character_def unknown_roundtrip)
  next
    case HOJSON_ENCODING_UTF_8
    then show ?thesis
      by (simp add: hojson_encode_character_def utf8_roundtrip [OF v1 v2])
  next
    case HOJSON_ENCODING_UTF_16_LE
    with d have "v \<le> 0xFFFF" "sg \<longrightarrow> v AND 0x8080 = 0" by simp_all
    then show ?thesis
      using utf16le_roundtrip [of v sg] v2
      by (simp add: HOJSON_ENCODING_UTF_16_LE hojson_encode_character_def)
  next
    case HOJSON_ENCODING_UTF_16_BE
    with d have "v \<le> 0xFFFF" "sg \<longrightarrow> v AND 0x8080 = 0" by simp_all
    then show ?thesis
      using utf16be_roundtrip [of v sg] v2
      by (simp add: HOJSON_ENCODING_UTF_16_BE hojson_encode_character_def)
  qed
qed

theorem encode_decode_roundtrip_witness:
  "bytes (hojson_encode_character 0xE9 HOJSON_ENCODING_UTF_8) \<noteq> 0
   \<and> cvalue (hojson_decode_character True (raw (hojson_encode_character 0xE9 HOJSON_ENCODING_UTF_8))
        (bytes (hojson_encode_character 0xE9 HOJSON_ENCODING_UTF_8)) HOJSON_ENCODING_UTF_8) = 0xE9
   \<and> cvalue (hojson_decode_character False
        (raw (hojson_encode_character 0x20AC HOJSON_ENCODING_UTF_16_LE))
        (bytes (hojson_encode_character 0x20AC HOJSON_ENCODING_UTF_16_LE))
        HOJSON_ENCODING_UTF_16_LE) = 0x20AC
   \<and> bytes (hojson_encode_character 0xD800 HOJSON_ENCODING_UTF_16_BE) = 0"
  using encode_decode_roundtrip [of "0xE9" HOJSON_ENCODING_UTF_8 True]
    encode_decode_roundtrip [of "0x20AC" HOJSON_ENCODING_UTF_16_LE False]
    encode_decode_roundtrip [of "0xD800" HOJSON_ENCODING_UTF_16_BE True]
  by simp

section \<open>Runs on concrete documents\<close>

subsection \<open>Claim C3\<close>

text \<open>
  C3 says that \<^verbatim>\<open>{ "a": "\u0041\u00E9" }\<close> in UTF-8 produces a \<^verbatim>\<open>NAME\<close> event for \<^verbatim>\<open>a\<close> and
  then a \<^verbatim>\<open>VALUE\<close> event of string type with the bytes \<^verbatim>\<open>41 C3 A9\<close>. The code produces
  \<^verbatim>\<open>41 C3 E9\<close>, without a byte-order mark (unknown encoding, encoded as UTF-8) and with the
  UTF-8 byte-order mark: the two-byte branch of \<^verbatim>\<open>hojson_encode_character\<close> masks the
  second byte with \<^verbatim>\<open>0xFF\<close> where its comment asks for \<^verbatim>\<open>10BBBBBB\<close> and the three- and
  four-byte branches mask with \<^verbatim>\<open>0x3F\<close>. The buffer of 48 bytes is at address 4096, the
  document at address 1000.
\<close>

theorem unicode_escape_document_events:
  "map_option events (drive env 12 (the (hojson_init (Some c0) 4096 48))
         [(1000, [0x7B, 0x20, 0x22, 0x61, 0x22, 0x3A, 0x20, 0x22, 0x5C, 0x75, 0x30, 0x30, 0x34, 0x31, 0x5C, 0x75, 0x30, 0x30, 0x45, 0x39, 0x22, 0x20, 0x7D])])
     = Some
      [\<lparr>ev_code = HOJSON_OBJECT_BEGIN, ev_depth = 0, ev_name = None,
        ev_type = HOJSON_TYPE_NONE, ev_string = None, ev_bool = 0\<rparr>,
       \<lparr>ev_code = HOJSON_NAME, ev_depth = 1, ev_name = Some [0x61],
        ev_type = HOJSON_TYPE_NONE, ev_string = None, ev_bool = 0\<rparr>,
       \<lparr>ev_code = HOJSON_VALUE, ev_depth = 1, ev_name = Some [0x61],
        ev_type = HOJSON_TYPE_STRING, ev_string = Some [0x41, 0xC3, 0xE9], ev_bool = 0\<rparr>,
       \<lparr>ev_code = HOJSON_OBJECT_END, ev_depth = 1, ev_name = None,
        ev_type = HOJSON_TYPE_NONE, ev_string = None, ev_bool = 0\<rparr>,
       \<lparr>ev_code = HOJSON_END_OF_DOCUMENT, ev_depth = 0, ev_name = None,
        ev_type = HOJSON_TYPE_NONE, ev_string = None, ev_bool = 0\<rparr>]
   \<and> map_option events (drive env 12 (the (hojson_init (Some c0) 4096 48))
         [(1000, [0xEF, 0xBB, 0xBF, 0x7B, 0x20, 0x22, 0x61, 0x22, 0x3A, 0x20, 0x22, 0x5C, 0x75, 0x30, 0x30, 0x34, 0x31, 0x5C, 0x75, 0x30, 0x30, 0x45, 0x39, 0x22, 0x20, 0x7D])])
     = Some
      [\<lparr>ev_code = HOJSON_OBJECT_BEGIN, ev_depth = 0, ev_name = None,
        ev_type = HOJSON_TYPE_NONE, ev_string = None, ev_bool = 0\<rparr>,
       \<lparr>ev_code = HOJSON_NAME, ev_depth = 1, ev_name = Some [0x61],
        ev_type = HOJSON_TYPE_NONE, ev_string = None, ev_bool = 0\<rparr>,
       \<lparr>ev_code = HOJSON_VALUE, ev_depth = 1, ev_name = Some [0x61],
        ev_type = HOJSON_TYPE_STRING, ev_string = Some [0x41, 0xC3, 0xE9], ev_bool = 0\<rparr>,
       \<lparr>ev_code = HOJSON_OBJECT_END, ev_depth = 1, ev_name = None,
        ev_type = HOJSON_TYPE_NONE, ev_string = None, ev_bool = 0\<rparr>,
       \<lparr>ev_code = HOJSON_END_OF_DOCUMENT, ev_depth = 0, ev_name = None,
        ev_type = HOJSON_TYPE_NONE, ev_string = None, ev_bool = 0\<rparr>]"
proof -
  obtain sg a f where e: "env = \<lparr>char_signed = sg, atoi = a, atof = f\<rparr>"
    by (cases env) auto
  show ?thesis
    unfolding e by (cases sg; simp add: model_defs cong: let_weak_cong)
qed

subsection \<open>Claim C5\<close>

text \<open>
  C5 says that a closing bracket is accepted in \<^verbatim>\<open>VALUE_EXPECTED\<close> only when the top
  container is an empty array, so that \<^verbatim>\<open>{"a":}\<close> does not end the object with an
  \<^verbatim>\<open>OBJECT_END\<close> event. The \<^verbatim>\<open>VALUE_EXPECTED\<close> case calls \<^verbatim>\<open>hojson_end_token\<close> for every
  closing bracket; the object is closed and the document is accepted.
\<close>

theorem missing_value_document_events:
  "map_option events (drive env 12 (the (hojson_init (Some c0) 4096 48))
         [(1000, [0x7B, 0x22, 0x61, 0x22, 0x3A, 0x7D])])
     = Some
      [\<lparr>ev_code = HOJSON_OBJECT_BEGIN, ev_depth = 0, ev_name = None,
        ev_type = HOJSON_TYPE_NONE, ev_string = None, ev_bool = 0\<rparr>,
       \<lparr>ev_code = HOJSON_NAME, ev_depth = 1, ev_name = Some [0x61],
        ev_type = HOJSON_TYPE_NONE, ev_string = None, ev_bool = 0\<rparr>,
       \<lparr>ev_code = HOJSON_OBJECT_END, ev_depth = 1, ev_name = None,
        ev_type = HOJSON_TYPE_NONE, ev_string = None, ev_bool = 0\<rparr>,
       \<lparr>ev_code = HOJSON_END_OF_DOCUMENT, ev_depth = 0, ev_name = None,
        ev_type = HOJSON_TYPE_NONE, ev_string = None, ev_bool = 0\<rparr>]"
proof -
  obtain sg a f where e: "env = \<lparr>char_signed = sg, atoi = a, atof = f\<rparr>"
    by (cases env) auto
  show ?thesis
    unfolding e by (cases sg; simp add: model_defs cong: let_weak_cong)
qed

subsection \<open>Claim C6\<close>

text \<open>
  C6 says that the depth exposed with a \<^verbatim>\<open>BEGIN\<close> event equals the depth exposed with the
  matching \<^verbatim>\<open>END\<close> event. For \<^verbatim>\<open>{}\<close> the depths are 0 and 1: the increment is deferred
  to the call after \<^verbatim>\<open>OBJECT_BEGIN\<close>, the decrement to the call after \<^verbatim>\<open>OBJECT_END\<close>.
\<close>

theorem empty_object_depth_counterexample:
  "map_option events (drive example_env 12 (initial_context 4096 48)
         [(1000, [0x7B, 0x7D])])
     = Some
      [\<lparr>ev_code = HOJSON_OBJECT_BEGIN, ev_depth = 0, ev_name = None,
        ev_type = HOJSON_TYPE_NONE, ev_string = None, ev_bool = 0\<rparr>,
       \<lparr>ev_code = HOJSON_OBJECT_END, ev_depth = 1, ev_name = None,
        ev_type = HOJSON_TYPE_NONE, ev_string = None, ev_bool = 0\<rparr>,
       \<lparr>ev_code = HOJSON_END_OF_DOCUMENT, ev_depth = 0, ev_name = None,
        ev_type = HOJSON_TYPE_NONE, ev_string = None, ev_bool = 0\<rparr>]"
  by (simp add: model_defs cong: let_weak_cong)

subsection \<open>Claim C1\<close>

text \<open>
  C1 says that every partition of a valid document into slices of at least one byte yields
  the events of the single slice. The document \<^verbatim>\<open>5B 22 C3 A9 22 5D\<close> (an array holding the string of the one
  character U+00E9) behind a UTF-8 byte-order mark
  yields four events as one slice. Cut after the first byte of the two-byte character and
  again after its second byte, it yields \<^verbatim>\<open>ARRAY_BEGIN\<close> only: the case
  \<^verbatim>\<open>HOJSON_STATE_ERROR_UNEXPECTED_EOF\<close> decodes into a local copy of the stream register, so
  the slice \<^verbatim>\<open>A9\<close> is tested with \<^verbatim>\<open>json_length\<close> = 1 against a two-byte character,
  answered with \<^verbatim>\<open>UNEXPECTED_EOF\<close> and never stored; the next slice is then decoded
  behind the stale first byte.
\<close>

theorem split_character_slices_differ:
  "map_option events (drive env 12 (the (hojson_init (Some c0) 4096 48))
         [(1000, [0xEF, 0xBB, 0xBF, 0x5B, 0x22, 0xC3, 0xA9, 0x22, 0x5D])])
     = Some
      [\<lparr>ev_code = HOJSON_ARRAY_BEGIN, ev_depth = 0, ev_name = None,
        ev_type = HOJSON_TYPE_NONE, ev_string = None, ev_bool = 0\<rparr>,
       \<lparr>ev_code = HOJSON_VALUE, ev_depth = 1, ev_name = None,
        ev_type = HOJSON_TYPE_STRING, ev_string = Some [0xC3, 0xA9], ev_bool = 0\<rparr>,
       \<lparr>ev_code = HOJSON_ARRAY_END, ev_depth = 1, ev_name = None,
        ev_type = HOJSON_TYPE_NONE, ev_string = None, ev_bool = 0\<rparr>,
       \<lparr>ev_code = HOJSON_END_OF_DOCUMENT, ev_depth = 0, ev_name = None,
        ev_type = HOJSON_TYPE_NONE, ev_string = None, ev_bool = 0\<rparr>]
   \<and> map_option events (drive env 12 (the (hojson_init (Some c0) 4096 48))
         [(1000, [0xEF, 0xBB, 0xBF, 0x5B, 0x22, 0xC3]),
          (1006, [0xA9]),
          (1007, [0x22, 0x5D])])
     = Some
      [\<lparr>ev_code = HOJSON_ARRAY_BEGIN, ev_depth = 0, ev_name = None,
        ev_type = HOJSON_TYPE_NONE, ev_string = None, ev_bool = 0\<rparr>]"
proof -
  obtain sg a f where e: "env = \<lparr>char_signed = sg, atoi = a, atof = f\<rparr>"
    by (cases env) auto
  show ?thesis
    unfolding e by (cases sg; simp add: model_defs cong: let_weak_cong)
qed

section \<open>Facts about single calls\<close>

subsection \<open>Claim C9\<close>

text \<open>
  C9: for every context and input, \<^verbatim>\<open>hojson_parse\<close> returns \<^verbatim>\<open>INVALID_INPUT\<close> and leaves
  the context unchanged when the context pointer is null, the context is uninitialised,
  the json pointer is null or \<^verbatim>\<open>json_length\<close> is zero; a zero-length slice yields
  \<^verbatim>\<open>INVALID_INPUT\<close>, not \<^verbatim>\<open>UNEXPECTED_EOF\<close>.
\<close>

theorem hojson_parse_invalid_input:
  assumes "context = None \<or> (\<exists>c. context = Some c \<and> is_initialized c = 0)
      \<or> js = 0 \<or> js_length = 0"
  shows "hojson_parse env context ram js js_length = Some (HOJSON_ERROR_INVALID_INPUT, context)"
  using assms by (auto simp add: hojson_parse_def split: option.splits)

theorem hojson_parse_invalid_input_witness:
  "hojson_parse example_env None (bytes_at 1000 [0x7B, 0x7D]) 1000 2
     = Some (HOJSON_ERROR_INVALID_INPUT, None)
   \<and> hojson_parse example_env (Some uninitialized_context) (bytes_at 1000 [0x7B, 0x7D]) 1000 2
     = Some (HOJSON_ERROR_INVALID_INPUT, Some uninitialized_context)
   \<and> hojson_parse example_env (Some (initial_context 4096 48)) (bytes_at 1000 [0x7B, 0x7D]) 0 2
     = Some (HOJSON_ERROR_INVALID_INPUT, Some (initial_context 4096 48))
   \<and> hojson_parse example_env (Some (initial_context 4096 48)) (bytes_at 1000 [0x7B, 0x7D]) 1000 0
     = Some (HOJSON_ERROR_INVALID_INPUT, Some (initial_context 4096 48))
   \<and> HOJSON_ERROR_INVALID_INPUT \<noteq> HOJSON_ERROR_UNEXPECTED_EOF"
  using hojson_parse_invalid_input [of None 1000 2 example_env "bytes_at 1000 [0x7B, 0x7D]"]
    hojson_parse_invalid_input [of "Some uninitialized_context" 1000 2 example_env
      "bytes_at 1000 [0x7B, 0x7D]"]
    hojson_parse_invalid_input [of "Some (initial_context 4096 48)" 0 2 example_env
      "bytes_at 1000 [0x7B, 0x7D]"]
    hojson_parse_invalid_input [of "Some (initial_context 4096 48)" 1000 0 example_env
      "bytes_at 1000 [0x7B, 0x7D]"]
  by (simp add: uninitialized_context_def)

subsection \<open>Claim C10\<close>




subsection \<open>Claim C4\<close>


lemma peek_advance [simp]: "peek (advance c ram ch) = peek c"
  by (rule ext) (auto simp add: advance_def load_stream_def Let_def peek_def in_buffer_def)

lemma flag_set_advance [simp]: "flag_set (advance c ram ch) f = flag_set c f"
  by (simp add: flag_set_def node_flags_def load16_def)
     (simp add: advance_def load_stream_def Let_def)

lemma advance_fields [simp]:
  "state (advance c ram ch) = state c"
  "stack (advance c ram ch) = stack c"
  "string_value (advance c ram ch) = string_value c"
  "bytes_iterated (advance c ram ch) = wrap64 (int (bytes ch) - int (stream_length c))"
  "iterator (advance c ram ch)
     = wrap64 (int (iterator c) + int (wrap64 (int (bytes ch) - int (stream_length c))))"
  by (simp_all add: advance_def load_stream_def Let_def)


lemma set_flag_fields [simp]:
  "state (set_flag c f) = state c" "iterator (set_flag c f) = iterator c"
  "column (set_flag c f) = column c" "value_type (set_flag c f) = value_type c"
  "float_value (set_flag c f) = float_value c" "integer_value (set_flag c f) = integer_value c"
  "bytes_iterated (set_flag c f) = bytes_iterated c"
  by (simp_all add: set_flag_def set_node_flags_def store16_def poke_def)




section \<open>Reads and writes in the buffer\<close>

subsection \<open>Bytes\<close>

lemma poke_fields [simp]:
  "buffer (poke c a v) = buffer c" "length (mem (poke c a v)) = length (mem c)"
  "buffer_length (poke c a v) = buffer_length c" "stack (poke c a v) = stack c"
  "state (poke c a v) = state c" "depth (poke c a v) = depth c"
  "error_return_state (poke c a v) = error_return_state c"
  "name (poke c a v) = name c" "string_value (poke c a v) = string_value c"
  "iterator (poke c a v) = iterator c" "json (poke c a v) = json c"
  "is_initialized (poke c a v) = is_initialized c"
  by (simp_all add: poke_def)

lemma in_buffer_poke [simp]: "in_buffer (poke c a v) b = in_buffer c b"
  by (simp add: in_buffer_def)

lemma peek_poke: "peek (poke c a v) b = (if b = a \<and> in_buffer c a then v else peek c b)"
  by (auto simp add: peek_def poke_def in_buffer_def)

lemma peek_outside: "\<not> in_buffer c a \<Longrightarrow> peek c a = 0"
  by (simp add: peek_def)

subsection \<open>Little-endian numbers\<close>

lemma unat_nat_byte: "unat (nat_byte v i) = (v div 256 ^ i) mod 256"
  by (simp add: nat_byte_def unat_of_nat)

lemma le_nat_bytes:
  "le_nat (map (nat_byte v) [i..<i + n]) = (v div 256 ^ i) mod 256 ^ n"
proof (induction n arbitrary: i)
  case 0
  then show ?case by simp
next
  case (Suc n)
  have "[i..<i + Suc n] = i # [Suc i..<Suc i + n]"
    by (simp add: upt_rec)
  then have "le_nat (map (nat_byte v) [i..<i + Suc n])
      = (v div 256 ^ i) mod 256 + 256 * ((v div 256 ^ Suc i) mod 256 ^ n)"
    using Suc.IH [of "Suc i"] by (simp add: unat_nat_byte)
  also have "\<dots> = (v div 256 ^ i) mod 256 ^ Suc n"
  proof -
    have "v div 256 ^ Suc i = v div 256 ^ i div 256"
      by (simp only: power_Suc2 div_mult2_eq)
    then show ?thesis
      by (simp only: power_Suc mod_mult2_eq)
  qed
  finally show ?case .
qed

lemma upt_8: "[0, 1, 2, 3, 4, 5, 6, 7] = [0..<0 + 8]"
  by (simp add: upt_rec)

lemma le_nat_bytes_8:
  "le_nat (map (nat_byte v) [0, 1, 2, 3, 4, 5, 6, 7]) = v mod 2 ^ 64"
proof -
  have "(256::nat) ^ 8 = 2 ^ 64" by simp
  then show ?thesis
    unfolding upt_8 le_nat_bytes by simp
qed

subsection \<open>64-bit fields\<close>

lemma store64_fields [simp]:
  "buffer (store64 c a v) = buffer c" "length (mem (store64 c a v)) = length (mem c)"
  "buffer_length (store64 c a v) = buffer_length c" "stack (store64 c a v) = stack c"
  "state (store64 c a v) = state c" "depth (store64 c a v) = depth c"
  "error_return_state (store64 c a v) = error_return_state c"
  "name (store64 c a v) = name c" "string_value (store64 c a v) = string_value c"
  "iterator (store64 c a v) = iterator c" "json (store64 c a v) = json c"
  "is_initialized (store64 c a v) = is_initialized c"
  by (simp_all add: store64_def)

lemma in_buffer_store64 [simp]: "in_buffer (store64 c a v) b = in_buffer c b"
  by (simp add: in_buffer_def)

lemma fold_poke_fields:
  "buffer (fold (\<lambda>i c'. poke c' (a + i) (f i)) ixs c) = buffer c \<and>
   length (mem (fold (\<lambda>i c'. poke c' (a + i) (f i)) ixs c)) = length (mem c)"
  by (induction ixs arbitrary: c) simp_all

lemma peek_fold_poke:
  "distinct ixs \<Longrightarrow>
   peek (fold (\<lambda>i c'. poke c' (a + i) (f i)) ixs c) b
     = (if a \<le> b \<and> b - a \<in> set ixs \<and> in_buffer c b then f (b - a) else peek c b)"
proof (induction ixs arbitrary: c)
  case Nil
  then show ?case by simp
next
  case (Cons i ixs)
  then show ?case
    by (auto simp add: peek_poke)
qed

lemma peek_store64:
  "peek (store64 c a v) b
     = (if a \<le> b \<and> b < a + 8 \<and> in_buffer c b then nat_byte v (b - a) else peek c b)"
proof -
  have "b - a \<in> set [0, 1, 2, 3, 4, 5, 6, 7] \<longleftrightarrow> b - a < 8"
    unfolding upt_8 by simp
  moreover have "a \<le> b \<and> b - a < 8 \<longleftrightarrow> a \<le> b \<and> b < a + 8"
    by arith
  ultimately show ?thesis
    unfolding store64_def by (subst peek_fold_poke) auto
qed

lemma load64_cong:
  assumes "\<And>i. i < 8 \<Longrightarrow> peek c' (a + i) = peek c (a + i)"
  shows "load64 c' a = load64 c a"
  using assms [of 0] assms [of 1] assms [of 2] assms [of 3] assms [of 4] assms [of 5]
    assms [of 6] assms [of 7]
  by (simp add: load64_def)

lemma load64_store64_same:
  assumes "in_buffer c a" "in_buffer c (a + 7)"
  shows "load64 (store64 c a v) a = v mod 2 ^ 64"
proof -
  have ib: "\<And>i. i < 8 \<Longrightarrow> in_buffer c (a + i)"
    using assms by (auto simp add: in_buffer_def)
  have "map (\<lambda>i. peek (store64 c a v) (a + i)) [0, 1, 2, 3, 4, 5, 6, 7]
      = map (nat_byte v) [0, 1, 2, 3, 4, 5, 6, 7]"
    by (rule map_cong [OF refl]) (auto simp add: peek_store64 ib)
  then show ?thesis
    by (simp only: load64_def le_nat_bytes_8)
qed

lemma load64_store64_other:
  assumes "b + 8 \<le> a \<or> a + 8 \<le> b"
  shows "load64 (store64 c a v) b = load64 c b"
  by (rule load64_cong) (use assms in \<open>auto simp add: peek_store64\<close>)

lemma load16_cong:
  "peek c' a = peek c a \<Longrightarrow> peek c' (a + 1) = peek c (a + 1) \<Longrightarrow> load16 c' a = load16 c a"
  by (simp add: load16_def)

subsection \<open>16-bit fields\<close>

lemma store16_fields [simp]:
  "buffer (store16 c a v) = buffer c" "length (mem (store16 c a v)) = length (mem c)"
  "buffer_length (store16 c a v) = buffer_length c" "stack (store16 c a v) = stack c"
  "state (store16 c a v) = state c" "depth (store16 c a v) = depth c"
  "error_return_state (store16 c a v) = error_return_state c"
  "name (store16 c a v) = name c" "string_value (store16 c a v) = string_value c"
  "iterator (store16 c a v) = iterator c" "json (store16 c a v) = json c"
  "is_initialized (store16 c a v) = is_initialized c"
  by (simp_all add: store16_def)

lemma in_buffer_store16 [simp]: "in_buffer (store16 c a v) b = in_buffer c b"
  by (simp add: in_buffer_def)

lemma peek_store16:
  "peek (store16 c a v) b
     = (if b = a \<and> in_buffer c a then ucast (v AND 0xFF)
        else if b = a + 1 \<and> in_buffer c (a + 1) then ucast (drop_bit 8 v)
        else peek c b)"
  by (auto simp add: store16_def peek_poke)

lemma word16_bytes:
  "ucast (ucast (v AND 0xFF) :: 8 word) OR push_bit 8 (ucast (ucast (drop_bit 8 v) :: 8 word))
     = (v :: 16 word)"
proof -
  have m: "(0xFF :: 16 word) = mask 8" by (simp add: mask_eq_exp_minus_1)
  show ?thesis
    unfolding m
    by (rule bit_word_eqI) (auto simp add: bit_simps bit_word_ucast_iff)
qed

lemma load16_store16_same:
  assumes "in_buffer c a" "in_buffer c (a + 1)"
  shows "load16 (store16 c a v) a = v"
  using assms by (simp add: load16_def peek_store16 word16_bytes)

lemma load16_store16_other:
  assumes "b + 2 \<le> a \<or> a + 2 \<le> b"
  shows "load16 (store16 c a v) b = load16 c b"
  by (rule load16_cong) (use assms in \<open>auto simp add: peek_store16\<close>)

lemma poke_mem: "poke c a v = c\<lparr>mem := mem (poke c a v)\<rparr>"
  by (simp add: poke_def)

lemma fold_poke_mem:
  "fold (\<lambda>i c'. poke c' (a + i) (f i)) ixs c
     = c\<lparr>mem := mem (fold (\<lambda>i c'. poke c' (a + i) (f i)) ixs c)\<rparr>"
proof (induction ixs arbitrary: c)
  case Nil
  show ?case by simp
next
  case (Cons i ixs)
  let ?c = "poke c (a + i) (f i)"
  let ?r = "fold (\<lambda>i c'. poke c' (a + i) (f i)) ixs ?c"
  have "?r = ?c\<lparr>mem := mem ?r\<rparr>"
    using Cons [of ?c] .
  also have "\<dots> = c\<lparr>mem := mem ?r\<rparr>"
    by (simp add: poke_def)
  finally show ?case by simp
qed

lemma store64_mem: "store64 c a v = c\<lparr>mem := mem (store64 c a v)\<rparr>"
  unfolding store64_def by (rule fold_poke_mem)

lemma store16_mem: "store16 c a v = c\<lparr>mem := mem (store16 c a v)\<rparr>"
  by (simp add: store16_def poke_def)

lemma wrap64_moved:
  assumes "buffer c \<le> p" "new_buffer + (p - buffer c) < 2 ^ 64"
  shows "wrap64 (int new_buffer + (int p - int (buffer c))) = moved c new_buffer p"
proof -
  have "int new_buffer + (int p - int (buffer c)) = int (new_buffer + (p - buffer c))"
    using assms(1) by simp
  moreover have "int (new_buffer + (p - buffer c)) mod 2 ^ 64 = int (new_buffer + (p - buffer c))"
    using assms(2) by (simp add: zmod_int [symmetric] del: of_nat_add)
  ultimately show ?thesis
    by (simp add: wrap64_def moved_def del: of_nat_add)
qed

lemma realloc_node_mem:
  "realloc_node c new_buffer n = c\<lparr>mem := mem (realloc_node c new_buffer n)\<rparr>"
proof -
  define c1 where
    "c1 = set_node_end c n (wrap64 (int new_buffer + (int (node_end c n) - int (buffer c))))"
  have m1: "c1 = c\<lparr>mem := mem c1\<rparr>"
    unfolding c1_def set_node_end_def by (rule store64_mem)
  have r: "realloc_node c new_buffer n = c1 \<or>
      (\<exists>v. realloc_node c new_buffer n = set_node_parent c1 n v)"
    unfolding realloc_node_def Let_def c1_def by auto
  show ?thesis
  proof (rule disjE [OF r])
    assume "realloc_node c new_buffer n = c1"
    then show ?thesis using m1 by simp
  next
    assume "\<exists>v. realloc_node c new_buffer n = set_node_parent c1 n v"
    then obtain v where v: "realloc_node c new_buffer n = store64 c1 n v"
      unfolding set_node_parent_def by blast
    have "store64 c1 n v = c1\<lparr>mem := mem (store64 c1 n v)\<rparr>"
      by (rule store64_mem)
    also have "\<dots> = c\<lparr>mem := mem (store64 c1 n v)\<rparr>"
      by (subst m1) simp
    finally show ?thesis using v by simp
  qed
qed

lemma realloc_node_effect:
  assumes n: "in_buffer c n" "in_buffer c (n + 15)"
    and e: "in_buffer c (node_end c n)"
    and p: "node_parent c n = 0 \<or> in_buffer c (node_parent c n)"
    and new: "new_buffer + length (mem c) \<le> 2 ^ 64"
  shows "node_end (realloc_node c new_buffer n) n = moved c new_buffer (node_end c n)"
    and "node_parent (realloc_node c new_buffer n) n = moved_pointer c new_buffer (node_parent c n)"
    and "\<And>a. a < n \<or> n + 16 \<le> a \<Longrightarrow> peek (realloc_node c new_buffer n) a = peek c a"
proof -
  have ib: "\<And>i. i < 16 \<Longrightarrow> in_buffer c (n + i)"
    using n by (auto simp add: in_buffer_def)
  have lt: "\<And>q. in_buffer c q \<Longrightarrow> new_buffer + (q - buffer c) < 2 ^ 64"
    using new by (auto simp add: in_buffer_def)
  have ge: "\<And>q. in_buffer c q \<Longrightarrow> buffer c \<le> q"
    by (simp add: in_buffer_def)
  define c1 where "c1 = set_node_end c n (moved c new_buffer (node_end c n))"
  have c1: "set_node_end c n (wrap64 (int new_buffer + (int (node_end c n) - int (buffer c)))) = c1"
    using wrap64_moved [OF ge [OF e] lt [OF e]] by (simp add: c1_def)
  have p1: "node_parent c1 n = node_parent c n"
    unfolding c1_def node_parent_def set_node_end_def by (rule load64_store64_other) simp
  have b1: "buffer c1 = buffer c"
    by (simp add: c1_def set_node_end_def)
  have e1: "node_end c1 n = moved c new_buffer (node_end c n)"
  proof -
    have "moved c new_buffer (node_end c n) < 2 ^ 64"
      using lt [OF e] by (simp add: moved_def)
    moreover have "in_buffer c (n + 8)" "in_buffer c (n + 8 + 7)"
      using n by (auto simp add: in_buffer_def)
    ultimately have "load64 (store64 c (n + 8) (moved c new_buffer (node_end c n))) (n + 8)
        = moved c new_buffer (node_end c n)"
      by (simp only: load64_store64_same mod_less)
    then show ?thesis
      unfolding c1_def node_end_def set_node_end_def .
  qed
  have f1: "\<And>a. a < n \<or> n + 16 \<le> a \<Longrightarrow> peek c1 a = peek c a"
    by (auto simp add: c1_def set_node_end_def peek_store64)
  have rn: "realloc_node c new_buffer n
      = (if node_parent c n \<noteq> 0
         then set_node_parent c1 n (wrap64 (int new_buffer + (int (node_parent c n) - int (buffer c))))
         else c1)"
    unfolding realloc_node_def Let_def c1 p1 b1 ..
  show "node_end (realloc_node c new_buffer n) n = moved c new_buffer (node_end c n)"
  proof (cases "node_parent c n = 0")
    case True
    then show ?thesis using e1 by (simp add: rn)
  next
    case False
    have "node_end (set_node_parent c1 n (wrap64 (int new_buffer + (int (node_parent c n) - int (buffer c))))) n
        = node_end c1 n"
      unfolding node_end_def set_node_parent_def by (rule load64_store64_other) simp
    then show ?thesis using False e1 by (simp add: rn)
  qed
  show "node_parent (realloc_node c new_buffer n) n = moved_pointer c new_buffer (node_parent c n)"
  proof (cases "node_parent c n = 0")
    case True
    then show ?thesis
      by (simp add: rn p1 moved_pointer_def)
  next
    case False
    then have ibp: "in_buffer c (node_parent c n)"
      using p by simp
    have w: "wrap64 (int new_buffer + (int (node_parent c n) - int (buffer c)))
        = moved c new_buffer (node_parent c n)"
      using wrap64_moved [OF ge [OF ibp] lt [OF ibp]] .
    have "moved c new_buffer (node_parent c n) < 2 ^ 64"
      using lt [OF ibp] by (simp add: moved_def)
    moreover have "in_buffer c1 n" "in_buffer c1 (n + 7)"
      using ib [of 0] ib [of 7] by (simp_all add: c1_def set_node_end_def)
    ultimately have "load64 (store64 c1 n (moved c new_buffer (node_parent c n))) n
        = moved c new_buffer (node_parent c n)"
      by (simp add: load64_store64_same)
    moreover have "realloc_node c new_buffer n
        = store64 c1 n (moved c new_buffer (node_parent c n))"
      using False by (simp add: rn w set_node_parent_def)
    ultimately show ?thesis
      using False by (simp add: moved_pointer_def node_parent_def)
  qed
  show "\<And>a. a < n \<or> n + 16 \<le> a \<Longrightarrow> peek (realloc_node c new_buffer n) a = peek c a"
    using f1 by (auto simp add: rn set_node_parent_def peek_store64)
qed

lemma load64_frame:
  assumes "\<And>a. x \<le> a \<Longrightarrow> a < x + 8 \<Longrightarrow> peek c' a = peek c a"
  shows "load64 c' x = load64 c x"
  by (rule load64_cong) (simp add: assms)

lemma load16_frame:
  assumes "\<And>a. x \<le> a \<Longrightarrow> a < x + 2 \<Longrightarrow> peek c' a = peek c a"
  shows "load16 c' x = load16 c x"
  by (rule load16_cong) (simp_all add: assms)

lemma node_chain_frame:
  assumes "\<And>m. m \<in> set ns \<Longrightarrow> node_parent c' m = node_parent c m"
  shows "node_chain c' ns p = node_chain c ns p"
  using assms by (induction ns arbitrary: p) simp_all

lemma node_chain_parent:
  assumes "node_chain c (n # ns) p"
  shows "node_parent c n = 0 \<or> node_parent c n \<in> set ns"
  using assms by (cases ns) simp_all

lemma realloc_nodes_effect:
  assumes "node_chain c ns p" "nodes_in_buffer c ns" "nodes_apart ns"
    and "new_buffer + length (mem c) \<le> 2 ^ 64"
  shows "\<exists>c'. realloc_nodes c new_buffer p = Some c' \<and> c' = c\<lparr>mem := mem c'\<rparr> \<and>
     length (mem c') = length (mem c) \<and>
     (\<forall>n \<in> set ns. node_end c' n = moved c new_buffer (node_end c n) \<and>
        node_parent c' n = moved_pointer c new_buffer (node_parent c n)) \<and>
     (\<forall>a. (\<forall>n \<in> set ns. a < n \<or> n + 16 \<le> a) \<longrightarrow> peek c' a = peek c a)"
  using assms
proof (induction ns arbitrary: c p)
  case Nil
  then have "realloc_nodes c new_buffer p = Some c"
    by (simp add: realloc_nodes.simps)
  then show ?case by simp
next
  case (Cons n ns)
  define c2 where "c2 = realloc_node c new_buffer n"
  have pn: "p = n" "n \<noteq> 0" and ch: "node_chain c ns (node_parent c n)"
    using Cons.prems(1) by simp_all
  have nb: "in_buffer c n" "in_buffer c (n + 15)" "in_buffer c (node_end c n)"
    using Cons.prems(2) by (simp_all add: nodes_in_buffer_def)
  have par: "node_parent c n = 0 \<or> in_buffer c (node_parent c n)"
    using node_chain_parent [OF Cons.prems(1)] Cons.prems(2)
    by (auto simp add: nodes_in_buffer_def)
  note eff = realloc_node_effect [OF nb par Cons.prems(4), folded c2_def]
  have m2: "c2 = c\<lparr>mem := mem c2\<rparr>"
    unfolding c2_def by (rule realloc_node_mem)
  have b2: "buffer c2 = buffer c"
    by (subst m2) simp
  have len2: "length (mem c2) = length (mem c)"
  proof -
    have "length (mem (store64 x a v)) = length (mem x)" for x a v by simp
    then show ?thesis
      by (simp add: c2_def realloc_node_def Let_def set_node_end_def set_node_parent_def)
  qed
  have ib2: "in_buffer c2 a = in_buffer c a" for a
    by (simp add: in_buffer_def b2 len2)
  have apart: "m + 16 \<le> n \<or> n + 16 \<le> m" if "m \<in> set ns" for m
    using Cons.prems(3) that by (auto simp add: nodes_apart_def)
  have same_parent: "node_parent c2 m = node_parent c m" if "m \<in> set ns" for m
    unfolding node_parent_def using apart [OF that] by (intro load64_frame eff(3)) arith
  have same_end: "node_end c2 m = node_end c m" if "m \<in> set ns" for m
    unfolding node_end_def using apart [OF that] by (intro load64_frame eff(3)) arith
  have ch2: "node_chain c2 ns (node_parent c n)"
    using ch node_chain_frame [of ns c2 c] same_parent by simp
  have nib2: "nodes_in_buffer c2 ns"
    using Cons.prems(2) by (simp add: nodes_in_buffer_def ib2 same_end)
  have ap2: "nodes_apart ns"
    using Cons.prems(3) by (auto simp add: nodes_apart_def)
  have new2: "new_buffer + length (mem c2) \<le> 2 ^ 64"
    using Cons.prems(4) by (simp add: len2)
  obtain c' where c': "realloc_nodes c2 new_buffer (node_parent c n) = Some c'"
      "c' = c2\<lparr>mem := mem c'\<rparr>" "length (mem c') = length (mem c2)"
      "\<And>m. m \<in> set ns \<Longrightarrow> node_end c' m = moved c2 new_buffer (node_end c2 m)"
      "\<And>m. m \<in> set ns \<Longrightarrow> node_parent c' m = moved_pointer c2 new_buffer (node_parent c2 m)"
      "\<And>a. (\<forall>n \<in> set ns. a < n \<or> n + 16 \<le> a) \<Longrightarrow> peek c' a = peek c2 a"
    using Cons.IH [OF ch2 nib2 ap2 new2] by blast
  have mv: "moved c2 new_buffer q = moved c new_buffer q"
      "moved_pointer c2 new_buffer q = moved_pointer c new_buffer q" for q
    by (simp_all add: moved_def moved_pointer_def b2)
  have run: "realloc_nodes c new_buffer p = Some c'"
    using c'(1) pn by (subst realloc_nodes.simps) (simp add: c2_def)
  have mem': "c' = c\<lparr>mem := mem c'\<rparr>"
    by (subst c'(2), subst m2) simp
  have top_untouched: "peek c' a = peek c2 a" if "n \<le> a" "a < n + 16" for a
  proof (rule c'(6), rule ballI)
    fix m assume "m \<in> set ns"
    then show "a < m \<or> m + 16 \<le> a"
      using apart [of m] that by arith
  qed
  have top_end: "node_end c' n = moved c new_buffer (node_end c n)"
  proof -
    have "node_end c' n = node_end c2 n"
      unfolding node_end_def by (rule load64_frame, rule top_untouched) simp_all
    then show ?thesis using eff(1) by simp
  qed
  have top_parent: "node_parent c' n = moved_pointer c new_buffer (node_parent c n)"
  proof -
    have "node_parent c' n = node_parent c2 n"
      unfolding node_parent_def by (rule load64_frame, rule top_untouched) simp_all
    then show ?thesis using eff(2) by simp
  qed
  have rest: "peek c' a = peek c a" if "\<forall>m \<in> set (n # ns). a < m \<or> m + 16 \<le> a" for a
  proof -
    have "peek c' a = peek c2 a"
      using that by (intro c'(6)) simp
    also have "\<dots> = peek c a"
      using that by (intro eff(3)) simp
    finally show ?thesis .
  qed
  show ?case
    using run mem' c'(3) len2 top_end top_parent c'(4,5) rest
    by (simp add: mv same_end same_parent)
qed

lemma load64_cong2:
  assumes "\<And>i. i < 8 \<Longrightarrow> peek c' (a' + i) = peek c (a + i)"
  shows "load64 c' a' = load64 c a"
  using assms [of 0] assms [of 1] assms [of 2] assms [of 3] assms [of 4] assms [of 5]
    assms [of 6] assms [of 7]
  by (simp add: load64_def)

lemma load16_cong2:
  "peek c' a' = peek c a \<Longrightarrow> peek c' (a' + 1) = peek c (a + 1) \<Longrightarrow> load16 c' a' = load16 c a"
  by (simp add: load16_def)

lemma peek_pointers_update:
  "peek (c\<lparr>name := x, string_value := y, stack := z\<rparr>) = peek c"
  by (rule ext) (simp add: peek_def in_buffer_def)

lemma realloc_finish_fields:
  "buffer (realloc_finish c1 new_buffer new_length) = new_buffer"
  "buffer_length (realloc_finish c1 new_buffer new_length) = new_length"
  "mem (realloc_finish c1 new_buffer new_length)
     = map (peek c1) [buffer c1..<buffer c1 + buffer_length c1]
       @ replicate (new_length - buffer_length c1) 0"
  "name (realloc_finish c1 new_buffer new_length) = realloc_pointer c1 new_buffer (name c1)"
  "string_value (realloc_finish c1 new_buffer new_length)
     = realloc_pointer c1 new_buffer (string_value c1)"
  "stack (realloc_finish c1 new_buffer new_length) = realloc_pointer c1 new_buffer (stack c1)"
  "state (realloc_finish c1 new_buffer new_length)
     = (if state c1 = HOJSON_STATE_ERROR_INSUFFICIENT_MEMORY then error_return_state c1
        else state c1)"
  "error_return_state (realloc_finish c1 new_buffer new_length)
     = (if state c1 = HOJSON_STATE_ERROR_INSUFFICIENT_MEMORY then HOJSON_STATE_NONE
        else error_return_state c1)"
  by (simp_all add: realloc_finish_def Let_def peek_pointers_update)

lemma realloc_pointer_moved:
  assumes "p = 0 \<or> in_buffer c p" "new_buffer + length (mem c) \<le> 2 ^ 64"
  shows "realloc_pointer c new_buffer p = moved_pointer c new_buffer p"
proof (cases "p = 0")
  case True
  then show ?thesis by (simp add: realloc_pointer_def moved_pointer_def)
next
  case False
  then have "in_buffer c p" using assms(1) by simp
  then have "buffer c \<le> p" "new_buffer + (p - buffer c) < 2 ^ 64"
    using assms(2) by (auto simp add: in_buffer_def)
  then show ?thesis
    using False by (simp add: realloc_pointer_def moved_pointer_def wrap64_moved)
qed

lemma peek_realloc_finish:
  assumes "length (mem c1) = buffer_length c1"
  shows "in_buffer c1 a \<Longrightarrow>
      peek (realloc_finish c1 new_buffer new_length) (moved c1 new_buffer a) = peek c1 a"
    and "new_buffer + buffer_length c1 \<le> a \<Longrightarrow> peek (realloc_finish c1 new_buffer new_length) a = 0"
proof -
  let ?c = "realloc_finish c1 new_buffer new_length"
  show "peek ?c (moved c1 new_buffer a) = peek c1 a" if "in_buffer c1 a"
  proof -
    have a: "buffer c1 \<le> a" "a - buffer c1 < buffer_length c1"
      using that assms by (simp_all add: in_buffer_def)
    then have "in_buffer ?c (moved c1 new_buffer a)"
      by (simp add: in_buffer_def realloc_finish_fields moved_def)
    moreover have "mem ?c ! (a - buffer c1) = peek c1 (buffer c1 + (a - buffer c1))"
      using a by (simp add: realloc_finish_fields nth_append)
    ultimately show ?thesis
      using a by (simp add: peek_def [of ?c] realloc_finish_fields(1) moved_def)
  qed
  show "peek ?c a = 0" if "new_buffer + buffer_length c1 \<le> a"
  proof (cases "in_buffer ?c a")
    case True
    then have "a - new_buffer < length (mem ?c)" "buffer_length c1 \<le> a - new_buffer"
      using that by (simp_all add: in_buffer_def realloc_finish_fields(1))
    then have "mem ?c ! (a - new_buffer) = 0"
      by (simp add: realloc_finish_fields(3) nth_append)
    then show ?thesis
      using True by (simp add: peek_def [of ?c] realloc_finish_fields(1))
  next
    case False
    then show ?thesis by (simp add: peek_outside)
  qed
qed

lemma moved_add:
  "buffer c \<le> a \<Longrightarrow> moved c new_buffer a + i = moved c new_buffer (a + i)"
  by (simp add: moved_def)

lemma load64_realloc_finish:
  assumes "length (mem c1) = buffer_length c1" "in_buffer c1 a" "in_buffer c1 (a + 7)"
  shows "load64 (realloc_finish c1 new_buffer new_length) (moved c1 new_buffer a) = load64 c1 a"
proof (rule load64_cong2)
  fix i :: nat assume "i < 8"
  then have "in_buffer c1 (a + i)"
    using assms(2,3) by (auto simp add: in_buffer_def)
  moreover have "buffer c1 \<le> a"
    using assms(2) by (simp add: in_buffer_def)
  ultimately show "peek (realloc_finish c1 new_buffer new_length) (moved c1 new_buffer a + i)
      = peek c1 (a + i)"
    using peek_realloc_finish(1) [OF assms(1)] by (simp add: moved_add)
qed

lemma load16_realloc_finish:
  assumes "length (mem c1) = buffer_length c1" "in_buffer c1 a" "in_buffer c1 (a + 1)"
  shows "load16 (realloc_finish c1 new_buffer new_length) (moved c1 new_buffer a) = load16 c1 a"
proof (rule load16_cong2)
  have b: "buffer c1 \<le> a"
    using assms(2) by (simp add: in_buffer_def)
  show "peek (realloc_finish c1 new_buffer new_length) (moved c1 new_buffer a) = peek c1 a"
    using peek_realloc_finish(1) [OF assms(1,2)] .
  show "peek (realloc_finish c1 new_buffer new_length) (moved c1 new_buffer a + 1) = peek c1 (a + 1)"
    using peek_realloc_finish(1) [OF assms(1,3)] b by (simp only: moved_add)
qed

section \<open>hojson_realloc\<close>

lemma moved_chain:
  assumes "node_chain c ns p" "new_buffer \<noteq> 0"
    and "\<And>n. n \<in> set ns \<Longrightarrow>
      node_parent c' (moved c new_buffer n) = moved_pointer c new_buffer (node_parent c n)"
  shows "node_chain c' (map (moved c new_buffer) ns) (moved_pointer c new_buffer p)"
  using assms
proof (induction ns arbitrary: p)
  case Nil
  then show ?case by (simp add: moved_pointer_def)
next
  case (Cons n ns)
  have pn: "p = n" "n \<noteq> 0" and ch: "node_chain c ns (node_parent c n)"
    using Cons.prems(1) by simp_all
  have "node_chain c' (map (moved c new_buffer) ns)
      (moved_pointer c new_buffer (node_parent c n))"
    using Cons.IH [OF ch Cons.prems(2)] Cons.prems(3) by simp
  then have "node_chain c' (map (moved c new_buffer) ns)
      (node_parent c' (moved c new_buffer n))"
    using Cons.prems(3) [of n] by simp
  moreover have "moved_pointer c new_buffer p = moved c new_buffer n"
    using pn by (simp add: moved_pointer_def)
  moreover have "moved c new_buffer n \<noteq> 0"
    using Cons.prems(2) by (simp add: moved_def)
  ultimately show ?case by simp
qed

text \<open>
  C8: for an initialized context and a new buffer, not null and strictly larger than the
  current one, \<^verbatim>\<open>hojson_realloc\<close> gives the context the new buffer, which holds the bytes
  of the old one at the same offsets (every byte outside the pointer fields of the nodes
  unchanged, the bytes behind them zero); the \<^verbatim>\<open>end\<close> and \<^verbatim>\<open>parent\<close> pointers of every
  node and the \<^verbatim>\<open>stack\<close>, \<^verbatim>\<open>name\<close> and \<^verbatim>\<open>string_value\<close> pointers of the context
  point at the same offset in the new buffer as they did in the old one, null pointers
  staying null, so that the nodes form the same chain there; a context in the
  \<^verbatim>\<open>INSUFFICIENT_MEMORY\<close> state is back in the state held by \<^verbatim>\<open>error_return_state\<close>;
  and no other field of the context changes, so the next call reads the input where the
  failed one stopped.
  The context is one whose nodes \<open>ns\<close> are a chain from \<^verbatim>\<open>stack\<close> inside the buffer and
  whose \<^verbatim>\<open>name\<close> and \<^verbatim>\<open>string_value\<close> are null or point into the buffer, and the new
  buffer lies inside the 64-bit address space.
\<close>

theorem hojson_realloc_moves_buffer:
  assumes init: "is_initialized c \<noteq> 0" "new_buffer \<noteq> 0" "buffer_length c < new_length"
    and len: "length (mem c) = buffer_length c"
    and new: "new_buffer + new_length \<le> 2 ^ 64"
    and chain: "node_chain c ns (stack c)" "nodes_in_buffer c ns" "nodes_apart ns"
    and ptrs: "name c = 0 \<or> in_buffer c (name c)"
      "string_value c = 0 \<or> in_buffer c (string_value c)"
  shows "\<exists>c'. hojson_realloc (Some c) new_buffer new_length = Some (Some c')
     \<and> buffer c' = new_buffer \<and> buffer_length c' = new_length \<and> length (mem c') = new_length
     \<and> (\<forall>a. in_buffer c a \<and> (\<forall>n \<in> set ns. a < n \<or> n + 16 \<le> a)
           \<longrightarrow> peek c' (moved c new_buffer a) = peek c a)
     \<and> (\<forall>a. new_buffer + buffer_length c \<le> a \<longrightarrow> peek c' a = 0)
     \<and> (\<forall>n \<in> set ns.
           node_end c' (moved c new_buffer n) = moved c new_buffer (node_end c n)
         \<and> node_parent c' (moved c new_buffer n) = moved_pointer c new_buffer (node_parent c n))
     \<and> node_chain c' (map (moved c new_buffer) ns) (stack c')
     \<and> stack c' = moved_pointer c new_buffer (stack c)
     \<and> name c' = moved_pointer c new_buffer (name c)
     \<and> string_value c' = moved_pointer c new_buffer (string_value c)
     \<and> state c' = (if state c = HOJSON_STATE_ERROR_INSUFFICIENT_MEMORY
                    then error_return_state c else state c)
     \<and> c'\<lparr>name := name c, string_value := string_value c, buffer := buffer c,
           buffer_length := buffer_length c, state := state c,
           error_return_state := error_return_state c, stack := stack c, mem := mem c\<rparr> = c"
proof -
  have new': "new_buffer + length (mem c) \<le> 2 ^ 64"
    using new init(3) len by simp
  obtain c1 where c1: "realloc_nodes c new_buffer (stack c) = Some c1"
      "c1 = c\<lparr>mem := mem c1\<rparr>" "length (mem c1) = length (mem c)"
      "\<And>n. n \<in> set ns \<Longrightarrow> node_end c1 n = moved c new_buffer (node_end c n)"
      "\<And>n. n \<in> set ns \<Longrightarrow> node_parent c1 n = moved_pointer c new_buffer (node_parent c n)"
      "\<And>a. (\<forall>n \<in> set ns. a < n \<or> n + 16 \<le> a) \<Longrightarrow> peek c1 a = peek c a"
    using realloc_nodes_effect [OF chain new'] by blast
  define c' where "c' = realloc_finish c1 new_buffer new_length"
  have f1: "buffer c1 = buffer c" "buffer_length c1 = buffer_length c" "name c1 = name c"
    "string_value c1 = string_value c" "stack c1 = stack c" "state c1 = state c"
    "error_return_state c1 = error_return_state c"
    by (subst c1(2), simp)+
  have len1: "length (mem c1) = buffer_length c1"
    using c1(3) len f1 by simp
  have ib1: "in_buffer c1 a = in_buffer c a" for a
    by (simp add: in_buffer_def f1 c1(3))
  have mv1: "moved c1 new_buffer a = moved c new_buffer a"
    "moved_pointer c1 new_buffer a = moved_pointer c new_buffer a" for a
    by (simp_all add: moved_def moved_pointer_def f1)
  have run: "hojson_realloc (Some c) new_buffer new_length = Some (Some c')"
    using init c1(1) by (simp add: hojson_realloc_def c'_def)
  have flds: "buffer c' = new_buffer" "buffer_length c' = new_length"
    "length (mem c') = new_length"
    using init(3) len1 f1 by (simp_all add: c'_def realloc_finish_fields)
  have copied: "peek c' (moved c new_buffer a) = peek c a"
    if "in_buffer c a" "\<forall>n \<in> set ns. a < n \<or> n + 16 \<le> a" for a
    using peek_realloc_finish(1) [OF len1, of a new_buffer new_length] that c1(6) [of a]
    by (simp add: c'_def ib1 mv1)
  have zero: "peek c' a = 0" if "new_buffer + buffer_length c \<le> a" for a
    using peek_realloc_finish(2) [OF len1, of new_buffer a new_length] that
    by (simp add: c'_def f1)
  have hdr0: "in_buffer c n" "in_buffer c (n + 7)" "in_buffer c (n + 8)"
    "in_buffer c (n + 8 + 7)" "buffer c \<le> n" if "n \<in> set ns" for n
    using chain(2) that by (auto simp add: nodes_in_buffer_def in_buffer_def)
  have hdr: "in_buffer c1 n" "in_buffer c1 (n + 7)" "in_buffer c1 (n + 8)"
    "in_buffer c1 (n + 8 + 7)" "buffer c \<le> n" if "n \<in> set ns" for n
    using hdr0 [OF that] by (simp_all only: ib1)
  have ends: "node_end c' (moved c new_buffer n) = moved c new_buffer (node_end c n)"
    if "n \<in> set ns" for n
  proof -
    have "load64 c' (moved c1 new_buffer (n + 8)) = load64 c1 (n + 8)"
      unfolding c'_def using len1 hdr(3,4) [OF that] by (rule load64_realloc_finish)
    then show ?thesis
      using c1(4) [OF that] hdr(5) [OF that] by (simp add: node_end_def mv1 moved_add)
  qed
  have parents: "node_parent c' (moved c new_buffer n)
      = moved_pointer c new_buffer (node_parent c n)" if "n \<in> set ns" for n
  proof -
    have "load64 c' (moved c1 new_buffer n) = load64 c1 n"
      unfolding c'_def using len1 hdr(1,2) [OF that] by (rule load64_realloc_finish)
    then show ?thesis
      using c1(5) [OF that] by (simp add: node_parent_def mv1)
  qed
  have stack_in: "stack c = 0 \<or> in_buffer c (stack c)"
    using chain(1,2) by (cases ns) (simp_all add: nodes_in_buffer_def)
  have ptr: "realloc_pointer c1 new_buffer p = moved_pointer c new_buffer p"
    if "p = 0 \<or> in_buffer c p" for p
    using realloc_pointer_moved [of p c1 new_buffer] that new' by (simp add: ib1 c1(3) mv1)
  have stk: "stack c' = moved_pointer c new_buffer (stack c)"
    using ptr [OF stack_in] by (simp add: c'_def realloc_finish_fields f1)
  have nm: "name c' = moved_pointer c new_buffer (name c)"
    using ptr [OF ptrs(1)] by (simp add: c'_def realloc_finish_fields f1)
  have sv: "string_value c' = moved_pointer c new_buffer (string_value c)"
    using ptr [OF ptrs(2)] by (simp add: c'_def realloc_finish_fields f1)
  have ch: "node_chain c' (map (moved c new_buffer) ns) (stack c')"
    unfolding stk using chain(1) init(2) parents by (rule moved_chain)
  have st: "state c' = (if state c = HOJSON_STATE_ERROR_INSUFFICIENT_MEMORY
      then error_return_state c else state c)"
    by (simp add: c'_def realloc_finish_fields f1)
  have "c'\<lparr>name := name c, string_value := string_value c, buffer := buffer c,
      buffer_length := buffer_length c, state := state c,
      error_return_state := error_return_state c, stack := stack c, mem := mem c\<rparr>
      = c1\<lparr>mem := mem c\<rparr>"
    by (simp add: c'_def realloc_finish_def Let_def f1)
  also have "\<dots> = c"
    by (subst c1(2)) simp
  finally have rest: "c'\<lparr>name := name c, string_value := string_value c, buffer := buffer c,
      buffer_length := buffer_length c, state := state c,
      error_return_state := error_return_state c, stack := stack c, mem := mem c\<rparr> = c" .
  show ?thesis
    using run flds copied zero ends parents ch stk nm sv st rest by blast
qed

lemma realloc_example_value:
  "realloc_example =
    \<lparr>name = 0, string_value = 0, integer_value = 0, float_value = 0,
    bool_value = 0, value_type = HOJSON_TYPE_NONE, line = 1, column = 2,
    depth = 2, is_initialized = 1, json = 1000, json_length = 3,
    encoding = HOJSON_ENCODING_UNKNOWN, iterator = 1002, bytes_iterated = 1,
    buffer = 4096, buffer_length = 48,
    state = HOJSON_STATE_ERROR_INSUFFICIENT_MEMORY,
    escape_return_state = HOJSON_STATE_NONE,
    error_return_state = HOJSON_STATE_VALUE_EXPECTED, stack = 4114,
    stream = 5987163, stream_length = 0, newline_character = 0,
    mem =
      [0, 0, 0, 0, 0, 0, 0, 0, 17, 16, 0, 0, 0, 0, 0, 0, 1, 0, 0, 16, 0, 0,
       0, 0, 0, 0, 35, 16, 0, 0, 0, 0, 0, 0, 1, 0, 0, 0, 0, 0, 0, 0, 0, 0,
       0, 0, 0, 0]\<rparr>"
  by (simp add: realloc_example_def model_defs cong: let_weak_cong)

lemma realloc_example_facts:
    "is_initialized realloc_example \<noteq> 0" "buffer_length realloc_example = 48"
    "length (mem realloc_example) = 48"
    "name realloc_example = 0" "string_value realloc_example = 0"
    "state realloc_example = HOJSON_STATE_ERROR_INSUFFICIENT_MEMORY"
    "error_return_state realloc_example = HOJSON_STATE_VALUE_EXPECTED"
    "stack realloc_example = 4114" "buffer realloc_example = 4096"
  by (simp_all add: realloc_example_value)

lemma realloc_example_nodes:
    "node_parent realloc_example 4114 = 4096" "node_end realloc_example 4114 = 4131"
    "node_parent realloc_example 4096 = 0" "node_end realloc_example 4096 = 4113"
  by (simp_all add: realloc_example_value node_parent_def node_end_def load64_def peek_def
      in_buffer_def)

lemma realloc_example_chain:
    "node_chain realloc_example [4114, 4096] (stack realloc_example)"
    "nodes_in_buffer realloc_example [4114, 4096]"
    "nodes_apart [4114, 4096]"
  by (simp_all add: realloc_example_nodes realloc_example_facts nodes_in_buffer_def
      nodes_apart_def in_buffer_def)

theorem hojson_realloc_moves_buffer_witness:
  "is_initialized realloc_example \<noteq> 0
   \<and> buffer_length realloc_example < 96
   \<and> length (mem realloc_example) = buffer_length realloc_example
   \<and> node_chain realloc_example [4114, 4096] (stack realloc_example)
   \<and> nodes_in_buffer realloc_example [4114, 4096]
   \<and> nodes_apart [4114, 4096]
   \<and> state realloc_example = HOJSON_STATE_ERROR_INSUFFICIENT_MEMORY
   \<and> (\<exists>c'. hojson_realloc (Some realloc_example) 8192 96 = Some (Some c')
        \<and> buffer c' = 8192 \<and> stack c' = 8210
        \<and> node_parent c' 8210 = 8192 \<and> node_end c' 8210 = 8227
        \<and> node_parent c' 8192 = 0 \<and> node_end c' 8192 = 8209
        \<and> state c' = HOJSON_STATE_VALUE_EXPECTED)"
proof -
  note f = realloc_example_facts
  have mv: "moved realloc_example 8192 4114 = 8210" "moved realloc_example 8192 4096 = 8192"
    "moved realloc_example 8192 4131 = 8227" "moved realloc_example 8192 4113 = 8209"
    "moved_pointer realloc_example 8192 4114 = 8210"
    "moved_pointer realloc_example 8192 4096 = 8192"
    "moved_pointer realloc_example 8192 0 = 0"
    by (simp_all add: moved_def moved_pointer_def f)
  obtain c' where c': "hojson_realloc (Some realloc_example) 8192 96 = Some (Some c')"
      "buffer c' = 8192"
      "\<forall>n \<in> set [4114, 4096].
           node_end c' (moved realloc_example 8192 n)
             = moved realloc_example 8192 (node_end realloc_example n)
         \<and> node_parent c' (moved realloc_example 8192 n)
             = moved_pointer realloc_example 8192 (node_parent realloc_example n)"
      "stack c' = moved_pointer realloc_example 8192 (stack realloc_example)"
      "state c' = (if state realloc_example = HOJSON_STATE_ERROR_INSUFFICIENT_MEMORY
                    then error_return_state realloc_example else state realloc_example)"
    using hojson_realloc_moves_buffer [of realloc_example 8192 96 "[4114, 4096]"]
      realloc_example_chain
    by (simp add: f) blast
  have "stack c' = 8210" "state c' = HOJSON_STATE_VALUE_EXPECTED"
    "node_parent c' 8210 = 8192" "node_end c' 8210 = 8227"
    "node_parent c' 8192 = 0" "node_end c' 8192 = 8209"
    using c'(3,4,5) by (simp_all add: f mv realloc_example_nodes)
  then show ?thesis
    using c'(1,2) realloc_example_chain by (simp add: f)
qed


end
